theory Spec2Isabelle
  imports Main "HOL-Library.Word" "HOL-Library.Signed_Division"
begin

unbundle bit_operations_syntax

section \<open>Data model\<close>

text \<open>
  The three programs (\<^verbatim>\<open>2_hilos\<close>, \<^verbatim>\<open>3_procesos\<close>, \<^verbatim>\<open>4_openMP\<close>) share the
  same \<^verbatim>\<open>Pixel\<close> and \<^verbatim>\<open>BMPHeader\<close> structs, the same reader \<^verbatim>\<open>leerArchivoBMP\<close>,
  the same kernel \<^verbatim>\<open>umbralizar\<close> and the same writer \<^verbatim>\<open>guardarMatrizEnBMP\<close>; they
  differ in \<^verbatim>\<open>main\<close> only.

  \<^verbatim>\<open>unsigned char\<close> is an 8-bit word, \<^verbatim>\<open>short\<close> a 16-bit word and \<^verbatim>\<open>int\<close> a
  32-bit word read as two's complement (\<open>sint\<close>).
\<close>

type_synonym byte = "8 word"

text \<open>\<^verbatim>\<open>struct Pixel { unsigned char blue; unsigned char green; unsigned char red; }\<close>\<close>

record Pixel =
  blue :: byte
  green :: byte
  red :: byte

section \<open>The threshold kernel\<close>

text \<open>
  \<^verbatim>\<open>unsigned char promedio = (pixel.red + pixel.green + pixel.blue) / 3;\<close>

  The operands of \<open>+\<close> are promoted to \<^verbatim>\<open>int\<close> before the addition, so the sum is
  a 32-bit signed value; the division is the signed division of \<^verbatim>\<open>int\<close>, and the
  initialisation of the \<^verbatim>\<open>unsigned char\<close> keeps the low 8 bits of the quotient.
\<close>

definition div_int :: "32 word \<Rightarrow> 32 word \<Rightarrow> 32 word" where
  \<comment> \<open>\<^verbatim>\<open>/\<close> on \<^verbatim>\<open>int\<close>: the quotient truncated towards zero.\<close>
  "div_int a b = word_of_int (sint a sdiv sint b)"

definition suma_canales :: "Pixel \<Rightarrow> 32 word" where
  "suma_canales pixel = ucast (red pixel) + ucast (green pixel) + ucast (blue pixel)"

definition promedio :: "Pixel \<Rightarrow> byte" where
  "promedio pixel = ucast (div_int (suma_canales pixel) 3)"

text \<open>
  \<^verbatim>\<open>if (promedio < umbral) { red = green = blue = 0; } else { red = green = blue = 255; }\<close>

  The comparison is between two \<^verbatim>\<open>unsigned char\<close> values (promoted to \<^verbatim>\<open>int\<close>, which
  keeps their unsigned order). The chained assignment stores blue first, then green,
  then red. The pixel is changed in place; the model returns the new pixel.
\<close>

definition umbralizar :: "Pixel \<Rightarrow> byte \<Rightarrow> Pixel" where
  "umbralizar pixel umbral =
     (if promedio pixel < umbral
      then pixel\<lparr>blue := 0, green := 0, red := 0\<rparr>
      else pixel\<lparr>blue := 255, green := 255, red := 255\<rparr>)"

section \<open>Properties of the kernel\<close>

lemma unat_byte_less: "unat (x :: byte) < 256"
  using unsigned_less [of x, where 'a = nat] by simp

lemma unat_ucast_byte: "unat (ucast (x :: byte) :: 32 word) = unat x"
  by (simp add: unsigned_ucast_eq take_bit_nat_eq_self unat_byte_less [THEN less_trans])

lemma unat_suma_canales:
  "unat (suma_canales p) = unat (red p) + unat (green p) + unat (blue p)"
proof -
  have r: "unat (red p) < 256" and g: "unat (green p) < 256" and b: "unat (blue p) < 256"
    by (rule unat_byte_less)+
  have "unat (suma_canales p)
      = (unat (red p) + unat (green p) + unat (blue p)) mod 2 ^ 32"
    by (simp add: suma_canales_def unat_word_ariths unat_ucast_byte mod_simps)
  also have "\<dots> = unat (red p) + unat (green p) + unat (blue p)"
    using r g b by simp
  finally show ?thesis .
qed

lemma sint_suma_canales:
  "sint (suma_canales p) = int (unat (red p) + unat (green p) + unat (blue p))"
proof -
  let ?s = "unat (red p) + unat (green p) + unat (blue p)"
  have r: "unat (red p) < 256" and g: "unat (green p) < 256" and b: "unat (blue p) < 256"
    by (rule unat_byte_less)+
  have "(0 :: int) \<le> int ?s" by (rule of_nat_0_le_iff)
  then have lo: "- (2 ^ 31) \<le> int ?s" by (rule order_trans [rotated]) simp
  have "?s < 768" using r g b by linarith
  then have "int ?s < int 768" by (simp only: of_nat_less_iff)
  also have "int 768 < 2 ^ 31" by simp
  finally have hi: "int ?s < 2 ^ 31" .
  have "suma_canales p = word_of_nat (unat (suma_canales p))"
    by simp
  then have "suma_canales p = word_of_int (int ?s)"
    by (simp only: unat_suma_canales of_int_of_nat_eq)
  then have "sint (suma_canales p) = signed_take_bit (LENGTH(32) - 1) (int ?s)"
    by (simp only: sint_sbintrunc')
  also have "\<dots> = signed_take_bit 31 (int ?s)"
    by simp
  also have "\<dots> = int ?s"
    using lo hi by (rule signed_take_bit_int_eq_self)
  finally show ?thesis .
qed

lemma sdiv_3_nonneg: "0 \<le> k \<Longrightarrow> k sdiv (3 :: int) = k div 3"
  by (cases "k = 0") (simp_all add: signed_divide_int_def)

lemma unat_promedio:
  "unat (promedio p) = (unat (red p) + unat (green p) + unat (blue p)) div 3"
proof -
  let ?s = "unat (red p) + unat (green p) + unat (blue p)"
  have r: "unat (red p) < 256" and g: "unat (green p) < 256" and b: "unat (blue p) < 256"
    by (rule unat_byte_less)+
  have q: "?s div 3 < 256" using r g b by simp
  have three: "sint (3 :: 32 word) = 3" by simp
  have "sint (suma_canales p) sdiv sint (3 :: 32 word) = int ?s div 3"
    unfolding three sint_suma_canales by (rule sdiv_3_nonneg) simp
  also have "\<dots> = int (?s div 3)"
    by (simp only: zdiv_int of_nat_numeral)
  finally have "div_int (suma_canales p) 3 = word_of_nat (?s div 3)"
    by (simp only: div_int_def of_int_of_nat_eq)
  then have "unat (div_int (suma_canales p) 3) = ?s div 3"
    using q by (simp only: unat_of_nat) simp
  then have "unat (promedio p) = take_bit LENGTH(8) (?s div 3)"
    by (simp only: promedio_def unsigned_ucast_eq)
  also have "\<dots> = ?s div 3"
    using q by (simp add: take_bit_nat_eq_self)
  finally show ?thesis .
qed

lemma promedio_less_iff:
  "promedio p < t \<longleftrightarrow> (unat (red p) + unat (green p) + unat (blue p)) div 3 < unat t"
  by (simp only: word_less_nat_alt unat_promedio)

lemma umbralizar_blanco:
  "unat t \<le> (unat (red p) + unat (green p) + unat (blue p)) div 3 \<Longrightarrow>
   umbralizar p t = p\<lparr>blue := 255, green := 255, red := 255\<rparr>"
  by (simp add: umbralizar_def promedio_less_iff)

lemma umbralizar_negro:
  "(unat (red p) + unat (green p) + unat (blue p)) div 3 < unat t \<Longrightarrow>
   umbralizar p t = p\<lparr>blue := 0, green := 0, red := 0\<rparr>"
  by (simp add: umbralizar_def promedio_less_iff)

lemma promedio_blanco: "promedio (p\<lparr>blue := 255, green := 255, red := 255\<rparr>) = 255"
proof -
  have "unat (promedio (p\<lparr>blue := 255, green := 255, red := 255\<rparr>)) = unat (255 :: byte)"
    by (simp add: unat_promedio)
  then show ?thesis by (simp only: word_unat_eq_iff)
qed

lemma promedio_negro: "promedio (p\<lparr>blue := 0, green := 0, red := 0\<rparr>) = 0"
proof -
  have "unat (promedio (p\<lparr>blue := 0, green := 0, red := 0\<rparr>)) = unat (0 :: byte)"
    by (simp add: unat_promedio)
  then show ?thesis by (simp only: word_unat_eq_iff)
qed

text \<open>
  Claim C1. For every pixel and every 8-bit threshold \<open>t\<close>, \<^verbatim>\<open>umbralizar\<close> sets the three
  channels to 255 exactly when \<open>floor ((r + g + b) / 3) \<ge> t\<close>, and to 0 otherwise; a
  pixel whose average equals \<open>t\<close> becomes 255, and one whose average is \<open>t - 1\<close> becomes 0.
\<close>

theorem umbralizar_iff_promedio:
  "(red (umbralizar p t) = 255 \<and> green (umbralizar p t) = 255 \<and> blue (umbralizar p t) = 255
      \<longleftrightarrow> unat t \<le> (unat (red p) + unat (green p) + unat (blue p)) div 3)
   \<and> (\<not> unat t \<le> (unat (red p) + unat (green p) + unat (blue p)) div 3 \<longrightarrow>
        red (umbralizar p t) = 0 \<and> green (umbralizar p t) = 0 \<and> blue (umbralizar p t) = 0)
   \<and> ((unat (red p) + unat (green p) + unat (blue p)) div 3 = unat t \<longrightarrow>
        red (umbralizar p t) = 255 \<and> green (umbralizar p t) = 255 \<and> blue (umbralizar p t) = 255)
   \<and> ((unat (red p) + unat (green p) + unat (blue p)) div 3 + 1 = unat t \<longrightarrow>
        red (umbralizar p t) = 0 \<and> green (umbralizar p t) = 0 \<and> blue (umbralizar p t) = 0)"
proof (cases "unat t \<le> (unat (red p) + unat (green p) + unat (blue p)) div 3")
  case True
  then show ?thesis
    by (simp add: umbralizar_blanco)
next
  case False
  then have "(unat (red p) + unat (green p) + unat (blue p)) div 3 < unat t"
    by simp
  then show ?thesis
    by (simp add: umbralizar_negro)
qed

text \<open>
  The mid-grey pixel (128, 128, 128) has average 128: at threshold 128 it becomes white,
  at threshold 129 (average = threshold - 1) it becomes black.
\<close>

theorem umbralizar_iff_promedio_witness:
  "(red (umbralizar \<lparr>blue = 128, green = 128, red = 128\<rparr> 128) = 255
     \<and> green (umbralizar \<lparr>blue = 128, green = 128, red = 128\<rparr> 128) = 255
     \<and> blue (umbralizar \<lparr>blue = 128, green = 128, red = 128\<rparr> 128) = 255)
   \<and> (unat (128 :: byte) + unat (128 :: byte) + unat (128 :: byte)) div 3 = unat (128 :: byte)
   \<and> (red (umbralizar \<lparr>blue = 128, green = 128, red = 128\<rparr> 129) = 0
     \<and> green (umbralizar \<lparr>blue = 128, green = 128, red = 128\<rparr> 129) = 0
     \<and> blue (umbralizar \<lparr>blue = 128, green = 128, red = 128\<rparr> 129) = 0)
   \<and> (unat (128 :: byte) + unat (128 :: byte) + unat (128 :: byte)) div 3 + 1 = unat (129 :: byte)"
  using umbralizar_iff_promedio [of "\<lparr>blue = 128, green = 128, red = 128\<rparr>" 128]
    umbralizar_iff_promedio [of "\<lparr>blue = 128, green = 128, red = 128\<rparr>" 129]
  by simp

text \<open>
  Claim C2. After \<^verbatim>\<open>umbralizar\<close>, each of the three channels of the pixel is exactly 0 or
  exactly 255, and the three channels are equal to each other.
\<close>

theorem umbralizar_canales_0_o_255:
  "(red (umbralizar p t) = 0 \<or> red (umbralizar p t) = 255)
   \<and> (green (umbralizar p t) = 0 \<or> green (umbralizar p t) = 255)
   \<and> (blue (umbralizar p t) = 0 \<or> blue (umbralizar p t) = 255)
   \<and> red (umbralizar p t) = green (umbralizar p t)
   \<and> green (umbralizar p t) = blue (umbralizar p t)"
  by (simp add: umbralizar_def)

text \<open>
  Claim C8. The channel sum is computed in an intermediate wide enough to hold 765 (here
  the 32-bit \<^verbatim>\<open>int\<close> of the integral promotion): its value is the true sum
  \<open>r + g + b\<close>, and the 8-bit average is \<open>floor ((r + g + b) / 3)\<close> with no wrap-around
  modulo 256. For the pixel (255, 255, 255) the sum is 765 and the average is 255, not
  \<open>((255 + 255 + 255) mod 256) div 3 = 84\<close>.
\<close>

theorem promedio_sin_desborde:
  "unat (suma_canales p) = unat (red p) + unat (green p) + unat (blue p)
   \<and> unat (promedio p) = (unat (red p) + unat (green p) + unat (blue p)) div 3
   \<and> unat (suma_canales \<lparr>blue = 255, green = 255, red = 255\<rparr>) = 765
   \<and> unat (promedio \<lparr>blue = 255, green = 255, red = 255\<rparr>) = 255
   \<and> ((255 + 255 + 255) mod 256) div 3 = (84 :: nat)"
  by (simp add: unat_suma_canales unat_promedio)

lemma no_mayor_que_255: "\<not> (255 :: byte) < t"
  using unat_byte_less [of t] by (simp add: word_less_nat_alt)

text \<open>
  Claim C9. Thresholding is idempotent: for every pixel and every threshold \<open>t\<close> (0 and 255
  included), applying \<^verbatim>\<open>umbralizar\<close> twice with the same \<open>t\<close> gives the same pixel as
  applying it once.
\<close>

theorem umbralizar_idempotente:
  "umbralizar (umbralizar p t) t = umbralizar p t"
proof (cases "promedio p < t")
  case True
  then have "0 < t"
    by (simp add: word_less_nat_alt)
  with True show ?thesis
    by (simp add: umbralizar_def promedio_negro)
next
  case False
  then show ?thesis
    by (simp add: umbralizar_def promedio_blanco no_mayor_que_255)
qed


section \<open>The partitioner\<close>

text \<open>
  From \<^verbatim>\<open>main\<close> of \<^verbatim>\<open>2_hilos\<close> (and, with \<^verbatim>\<open>numProcesos\<close> for \<^verbatim>\<open>numHilos\<close>, of
  \<^verbatim>\<open>3_procesos\<close>):

  \<^verbatim>\<open>int tamanoBloque = matriz.size() / numHilos;\<close>
  \<^verbatim>\<open>int inicio = i * tamanoBloque;\<close>
  \<^verbatim>\<open>int fin = (i == numHilos - 1) ? matriz.size() : inicio + tamanoBloque;\<close>

  \<open>h\<close> is \<^verbatim>\<open>matriz.size()\<close>, \<open>W\<close> the worker count and \<open>i\<close> the worker's index, with
  \<open>i < W\<close> inside the loop. The source computes in \<^verbatim>\<open>int\<close>; the height comes from the
  header's \<^verbatim>\<open>int height\<close>, and every intermediate value lies between 0 and \<open>h\<close>
  (\<open>inicio_le_fin\<close>, \<open>fin_le\<close> below), so nothing overflows and the natural numbers
  compute the same values. A worker count of 0 makes the source divide by zero; the
  functions below are used for \<open>W \<ge> 1\<close> only.
\<close>

definition tamanoBloque :: "nat \<Rightarrow> nat \<Rightarrow> nat" where
  "tamanoBloque h W = h div W"

definition inicio :: "nat \<Rightarrow> nat \<Rightarrow> nat \<Rightarrow> nat" where
  "inicio h W i = i * tamanoBloque h W"

definition fin :: "nat \<Rightarrow> nat \<Rightarrow> nat \<Rightarrow> nat" where
  "fin h W i = (if i = W - 1 then h else inicio h W i + tamanoBloque h W)"

definition rangos :: "nat \<Rightarrow> nat \<Rightarrow> (nat \<times> nat) list" where
  "rangos h W = map (\<lambda>i. (inicio h W i, fin h W i)) [0..<W]"

lemma bloques_le: "i \<le> W \<Longrightarrow> i * (h div W) \<le> (h :: nat)"
proof -
  assume "i \<le> W"
  then have "i * (h div W) \<le> W * (h div W)" by (simp add: mult_le_mono1)
  also have "\<dots> \<le> h" by simp
  finally show ?thesis .
qed

lemma inicio_le_fin: "1 \<le> W \<Longrightarrow> i < W \<Longrightarrow> inicio h W i \<le> fin h W i"
  using bloques_le [of "W - 1" W h] by (simp add: inicio_def fin_def tamanoBloque_def)

lemma fin_le: "1 \<le> W \<Longrightarrow> i < W \<Longrightarrow> fin h W i \<le> h"
  using bloques_le [of "Suc i" W h] by (simp add: inicio_def fin_def tamanoBloque_def)

lemma fin_eq_inicio_Suc: "Suc i < W \<Longrightarrow> fin h W i = inicio h W (Suc i)"
proof -
  assume "Suc i < W"
  then have "i \<noteq> W - 1" by linarith
  then show ?thesis by (simp add: inicio_def fin_def)
qed

lemma fin_ultimo: "1 \<le> W \<Longrightarrow> fin h W (W - 1) = h"
  by (simp add: fin_def)

lemma inicio_mono: "i \<le> j \<Longrightarrow> inicio h W i \<le> inicio h W j"
  by (simp add: inicio_def)

lemma fin_le_inicio: "i < j \<Longrightarrow> j < W \<Longrightarrow> fin h W i \<le> inicio h W j"
proof -
  assume ij: "i < j" and jW: "j < W"
  then have "fin h W i = inicio h W (Suc i)" by (simp add: fin_eq_inicio_Suc)
  also have "\<dots> \<le> inicio h W j" using ij by (simp add: inicio_mono)
  finally show ?thesis .
qed

lemma fila_tiene_hilo:
  assumes W: "1 \<le> W" and r: "r < h"
  shows "\<exists>i<W. inicio h W i \<le> r \<and> r < fin h W i"
proof (cases "r < (W - 1) * (h div W)")
  case True
  then have b: "0 < h div W" by (cases "h div W = 0") simp_all
  let ?i = "r div (h div W)"
  have lt: "?i < W - 1"
    using True b by (simp add: div_less_iff_less_mult)
  have lo: "?i * (h div W) \<le> r" by simp
  have "r < ?i * (h div W) + (h div W)"
    using b div_mult_mod_eq [of r "h div W"] mod_less_divisor [of "h div W" r] by linarith
  with lt lo show ?thesis
    by (intro exI [of _ ?i]) (simp add: inicio_def fin_def tamanoBloque_def)
next
  case False
  with W r show ?thesis
    by (intro exI [of _ "W - 1"]) (simp add: inicio_def fin_def tamanoBloque_def)
qed

lemma hilo_unico:
  assumes "i < W" "j < W"
    and "inicio h W i \<le> r" "r < fin h W i"
    and "inicio h W j \<le> r" "r < fin h W j"
  shows "i = j"
proof (rule ccontr)
  assume "i \<noteq> j"
  then consider "i < j" | "j < i" by linarith
  then show False
  proof cases
    case 1
    then have "fin h W i \<le> inicio h W j" using assms(2) by (rule fin_le_inicio)
    with assms show False by linarith
  next
    case 2
    then have "fin h W j \<le> inicio h W i" using assms(1) by (rule fin_le_inicio)
    with assms show False by linarith
  qed
qed

lemma rangos_disjuntos:
  assumes "i < W" "j < W" "i \<noteq> j"
  shows "{inicio h W i..<fin h W i} \<inter> {inicio h W j..<fin h W j} = {}"
proof -
  have "False" if "r \<in> {inicio h W i..<fin h W i}" "r \<in> {inicio h W j..<fin h W j}" for r
    using hilo_unico [of i W j h r] assms that by simp
  then show ?thesis by blast
qed

lemma union_rangos:
  assumes W: "1 \<le> W"
  shows "(\<Union>i<W. {inicio h W i..<fin h W i}) = {0..<h}"
proof (rule set_eqI, rule iffI)
  fix r
  assume "r \<in> (\<Union>i<W. {inicio h W i..<fin h W i})"
  then obtain i where "i < W" "r < fin h W i" by auto
  with W fin_le [of W i h] show "r \<in> {0..<h}" by simp
next
  fix r
  assume "r \<in> {0..<h}"
  then have "r < h" by simp
  with W obtain i where "i < W" "inicio h W i \<le> r" "r < fin h W i"
    using fila_tiene_hilo by blast
  then show "r \<in> (\<Union>i<W. {inicio h W i..<fin h W i})" by auto
qed

text \<open>
  Claim C3. For every height \<open>h\<close> and worker count \<open>W\<close> with \<open>1 \<le> W \<le> h\<close>, worker \<open>i < W - 1\<close>
  gets the rows \<open>[i * blockSize, (i + 1) * blockSize)\<close> with \<open>blockSize = h div W\<close>, the last
  worker gets \<open>[(W - 1) * blockSize, h)\<close>, and these ranges cover every row index of
  \<open>[0, h)\<close> exactly once: their union is the whole range and no two of them overlap.
\<close>

theorem particion_cubre_una_vez:
  assumes "1 \<le> W" and "W \<le> h"
  shows
    "(\<forall>i<W. inicio h W i = i * (h div W)
        \<and> fin h W i = (if i < W - 1 then (i + 1) * (h div W) else h)
        \<and> inicio h W i \<le> fin h W i \<and> fin h W i \<le> h)
     \<and> (\<Union>i<W. {inicio h W i..<fin h W i}) = {0..<h}
     \<and> (\<forall>i<W. \<forall>j<W. i \<noteq> j \<longrightarrow>
           {inicio h W i..<fin h W i} \<inter> {inicio h W j..<fin h W j} = {})
     \<and> (\<forall>r<h. \<exists>!i. i < W \<and> inicio h W i \<le> r \<and> r < fin h W i)"
proof (intro conjI)
  show "\<forall>i<W. inicio h W i = i * (h div W)
        \<and> fin h W i = (if i < W - 1 then (i + 1) * (h div W) else h)
        \<and> inicio h W i \<le> fin h W i \<and> fin h W i \<le> h"
    using assms(1) inicio_le_fin [of W _ h] fin_le [of W _ h]
    by (auto simp: inicio_def fin_def tamanoBloque_def)
  show "(\<Union>i<W. {inicio h W i..<fin h W i}) = {0..<h}"
    using assms(1) by (rule union_rangos)
  show "\<forall>i<W. \<forall>j<W. i \<noteq> j \<longrightarrow>
           {inicio h W i..<fin h W i} \<inter> {inicio h W j..<fin h W j} = {}"
    using rangos_disjuntos by blast
  show "\<forall>r<h. \<exists>!i. i < W \<and> inicio h W i \<le> r \<and> r < fin h W i"
  proof (intro allI impI)
    fix r assume "r < h"
    with assms(1) obtain i where i: "i < W" "inicio h W i \<le> r" "r < fin h W i"
      using fila_tiene_hilo by blast
    show "\<exists>!i. i < W \<and> inicio h W i \<le> r \<and> r < fin h W i"
    proof (rule ex1I [of _ i])
      show "i < W \<and> inicio h W i \<le> r \<and> r < fin h W i" using i by simp
    next
      fix j assume "j < W \<and> inicio h W j \<le> r \<and> r < fin h W j"
      with i show "j = i" using hilo_unico [of j W i h r] by simp
    qed
  qed
qed

text \<open>Ten rows on three workers: the ranges are [0, 3), [3, 6) and [6, 10).\<close>

theorem particion_cubre_una_vez_witness:
  "(1 :: nat) \<le> 3 \<and> (3 :: nat) \<le> 10
   \<and> rangos 10 3 = [(0, 3), (3, 6), (6, 10)]
   \<and> (\<Union>i<3. {inicio 10 3 i..<fin 10 3 i}) = {0..<10}
   \<and> {inicio 10 3 0..<fin 10 3 0} \<inter> {inicio 10 3 2..<fin 10 3 2} = {}"
proof -
  have h: "(1 :: nat) \<le> 3" "(3 :: nat) \<le> 10"
    by simp_all
  have r: "rangos 10 3 = [(0, 3), (3, 6), (6, 10)]"
    by (simp add: rangos_def inicio_def fin_def tamanoBloque_def upt_rec)
  note t = particion_cubre_una_vez [OF h]
  from t have u: "(\<Union>i<3. {inicio 10 3 i..<fin 10 3 i}) = {0..<10}"
    by blast
  from t have a: "\<forall>i<3. \<forall>j<3. i \<noteq> j \<longrightarrow>
      {inicio 10 3 i..<fin 10 3 i} \<inter> {inicio 10 3 j..<fin 10 3 j} = {}"
    by blast
  have d: "{inicio 10 3 0..<fin 10 3 0} \<inter> {inicio 10 3 2..<fin 10 3 2} = {}"
    by (rule a [rule_format, of 0 2]) simp_all
  from h r u d show ?thesis
    by blast
qed


section \<open>The BMP codec: data\<close>

text \<open>
  A run of the program ends in one of these ways besides returning normally.
  \<^item> \<open>Exit c\<close>: the program called \<^verbatim>\<open>exit(c)\<close>.
  \<^item> \<open>Abortado\<close>: an exception left \<^verbatim>\<open>main\<close> uncaught (\<^verbatim>\<open>std::terminate\<close>); the only
    source of one here is the construction of a \<^verbatim>\<open>std::vector\<close> with a negative
    \<^verbatim>\<open>int\<close> count, which converts to a \<^verbatim>\<open>size_t\<close> above \<^verbatim>\<open>max_size()\<close>.
  \<^item> \<open>FueraDeRango\<close>: \<^verbatim>\<open>operator[]\<close> was applied to a vector with an index that is not
    below its size (undefined behaviour in C++).
  \<^item> \<open>DivisionPorCero\<close>: an integer division by zero (undefined behaviour in C++).
  \<^item> \<open>DesbordeInt\<close>: an \<^verbatim>\<open>int\<close> loop counter was incremented beyond \<open>2 ^ 31 - 1\<close>
    (undefined behaviour in C++).
\<close>

datatype error = Exit int | Abortado | FueraDeRango | DivisionPorCero | DesbordeInt

text \<open>\<^verbatim>\<open>vector<vector<Pixel>>\<close>: the rows of the image, each a list of pixels.\<close>

type_synonym matriz = "Pixel list list"

text \<open>
  The files of the machine: the content of each path that can be opened for reading,
  \<open>None\<close> for a path that cannot.
\<close>

type_synonym archivos = "string \<Rightarrow> byte list option"

text \<open>
  \<^verbatim>\<open>#pragma pack(push, 1) struct BMPHeader { char signature[2]; int fileSize; int reserved;\<close>
  \<^verbatim>\<open>int dataOffset; int headerSize; int width; int height; short planes; short bitsPerPixel;\<close>
  \<^verbatim>\<open>int compression; int dataSize; int horizontalResolution; int verticalResolution;\<close>
  \<^verbatim>\<open>int colors; int importantColors; };\<close>
\<close>

record BMPHeader =
  signature :: "byte \<times> byte"
  fileSize :: "32 word"
  reserved :: "32 word"
  dataOffset :: "32 word"
  headerSize :: "32 word"
  width :: "32 word"
  height :: "32 word"
  planes :: "16 word"
  bitsPerPixel :: "16 word"
  compression :: "32 word"
  dataSize :: "32 word"
  horizontalResolution :: "32 word"
  verticalResolution :: "32 word"
  colors :: "32 word"
  importantColors :: "32 word"

text \<open>
  With \<^verbatim>\<open>pack(1)\<close> the struct has no padding: \<^verbatim>\<open>sizeof(BMPHeader)\<close> is
  2 + 6 * 4 + 2 * 2 + 6 * 4 = 54, and \<^verbatim>\<open>sizeof(Pixel)\<close> is 3.
\<close>

definition sizeof_BMPHeader :: nat where
  "sizeof_BMPHeader = 54"

definition sizeof_Pixel :: nat where
  "sizeof_Pixel = 3"

text \<open>
  Both the reader and the writer move the header between the file and memory with
  \<^verbatim>\<open>reinterpret_cast<char*>(&header)\<close>, so the bytes of the file are the object
  representation of the struct: the fields in declaration order, each in the byte order
  of the machine, taken little-endian here (the order of the BMP format).
\<close>

definition bytes_de_int :: "32 word \<Rightarrow> byte list" where
  "bytes_de_int w = [ucast w, ucast (drop_bit 8 w), ucast (drop_bit 16 w), ucast (drop_bit 24 w)]"

definition int_de_bytes :: "byte list \<Rightarrow> 32 word" where
  "int_de_bytes bs =
     ucast (bs ! 0) OR push_bit 8 (ucast (bs ! 1)) OR push_bit 16 (ucast (bs ! 2))
       OR push_bit 24 (ucast (bs ! 3))"

definition bytes_de_short :: "16 word \<Rightarrow> byte list" where
  "bytes_de_short w = [ucast w, ucast (drop_bit 8 w)]"

definition short_de_bytes :: "byte list \<Rightarrow> 16 word" where
  "short_de_bytes bs = ucast (bs ! 0) OR push_bit 8 (ucast (bs ! 1))"

text \<open>The \<open>n\<close> bytes of a field that starts at offset \<open>desde\<close> of the struct.\<close>

definition campo :: "nat \<Rightarrow> nat \<Rightarrow> byte list \<Rightarrow> byte list" where
  "campo desde n mem = take n (drop desde mem)"

definition bytes_de_BMPHeader :: "BMPHeader \<Rightarrow> byte list" where
  "bytes_de_BMPHeader header =
     [fst (signature header), snd (signature header)]
     @ bytes_de_int (fileSize header)
     @ bytes_de_int (reserved header)
     @ bytes_de_int (dataOffset header)
     @ bytes_de_int (headerSize header)
     @ bytes_de_int (width header)
     @ bytes_de_int (height header)
     @ bytes_de_short (planes header)
     @ bytes_de_short (bitsPerPixel header)
     @ bytes_de_int (compression header)
     @ bytes_de_int (dataSize header)
     @ bytes_de_int (horizontalResolution header)
     @ bytes_de_int (verticalResolution header)
     @ bytes_de_int (colors header)
     @ bytes_de_int (importantColors header)"

text \<open>The struct held by 54 bytes of memory (\<open>mem\<close> has at least 54 bytes where it is used).\<close>

definition BMPHeader_de_bytes :: "byte list \<Rightarrow> BMPHeader" where
  "BMPHeader_de_bytes mem =
     \<lparr>signature = (mem ! 0, mem ! 1),
      fileSize = int_de_bytes (campo 2 4 mem),
      reserved = int_de_bytes (campo 6 4 mem),
      dataOffset = int_de_bytes (campo 10 4 mem),
      headerSize = int_de_bytes (campo 14 4 mem),
      width = int_de_bytes (campo 18 4 mem),
      height = int_de_bytes (campo 22 4 mem),
      planes = short_de_bytes (campo 26 2 mem),
      bitsPerPixel = short_de_bytes (campo 28 2 mem),
      compression = int_de_bytes (campo 30 4 mem),
      dataSize = int_de_bytes (campo 34 4 mem),
      horizontalResolution = int_de_bytes (campo 38 4 mem),
      verticalResolution = int_de_bytes (campo 42 4 mem),
      colors = int_de_bytes (campo 46 4 mem),
      importantColors = int_de_bytes (campo 50 4 mem)\<rparr>"

text \<open>The three bytes of a \<^verbatim>\<open>Pixel\<close> in memory: blue, green, red.\<close>

definition bytes_de_Pixel :: "Pixel \<Rightarrow> byte list" where
  "bytes_de_Pixel p = [blue p, green p, red p]"

definition Pixel_de_bytes :: "byte list \<Rightarrow> Pixel" where
  "Pixel_de_bytes mem = \<lparr>blue = mem ! 0, green = mem ! 1, red = mem ! 2\<rparr>"

text \<open>A value-initialised \<^verbatim>\<open>Pixel\<close>, as \<^verbatim>\<open>vector<Pixel>(n)\<close> creates them.\<close>

definition negro :: Pixel where
  "negro = \<lparr>blue = 0, green = 0, red = 0\<rparr>"

section \<open>The input stream\<close>

text \<open>
  An \<^verbatim>\<open>ifstream\<close> opened in binary mode: the bytes of the file, the read position, and
  the \<^verbatim>\<open>failbit\<close>. (\<^verbatim>\<open>eofbit\<close> is set only together with \<^verbatim>\<open>failbit\<close> by the calls
  used here, and \<^verbatim>\<open>seekg\<close> clears it.)
\<close>

record ifstream =
  contenido :: "byte list"
  pos :: nat
  failbit :: bool

definition abrir :: "byte list \<Rightarrow> ifstream" where
  "abrir datos = \<lparr>contenido = datos, pos = 0, failbit = False\<rparr>"

text \<open>
  \<^verbatim>\<open>archivo.read(destino, n)\<close>: on a stream whose \<^verbatim>\<open>failbit\<close> is set nothing is read and
  the destination keeps its bytes. Otherwise the bytes that are left, at most \<open>n\<close>, are
  stored at the start of the destination, whose other bytes keep their value, and the
  \<^verbatim>\<open>failbit\<close> is set when fewer than \<open>n\<close> were left. \<open>destino\<close> is the content of the
  \<open>n\<close> bytes of memory before the call; the result is their content after it.
\<close>

definition read :: "nat \<Rightarrow> byte list \<Rightarrow> ifstream \<Rightarrow> byte list \<times> ifstream" where
  "read n destino s =
     (if failbit s then (destino, s)
      else let leidos = take n (drop (pos s) (contenido s))
           in (leidos @ drop (length leidos) destino,
               s\<lparr>pos := pos s + length leidos, failbit := length leidos < n\<rparr>))"

text \<open>
  \<^verbatim>\<open>archivo.seekg(off, ios::beg)\<close> and \<^verbatim>\<open>archivo.seekg(off, ios::cur)\<close>: nothing happens
  on a stream whose \<^verbatim>\<open>failbit\<close> is set; a position before the start of the file sets the
  \<^verbatim>\<open>failbit\<close>; a position beyond the end is accepted (the next read then finds no byte).
\<close>

definition seekg_beg :: "int \<Rightarrow> ifstream \<Rightarrow> ifstream" where
  "seekg_beg off s =
     (if failbit s then s
      else if off < 0 then s\<lparr>failbit := True\<rparr>
      else s\<lparr>pos := nat off\<rparr>)"

definition seekg_cur :: "int \<Rightarrow> ifstream \<Rightarrow> ifstream" where
  "seekg_cur off s =
     (if failbit s then s
      else if int (pos s) + off < 0 then s\<lparr>failbit := True\<rparr>
      else s\<lparr>pos := nat (int (pos s) + off)\<rparr>)"

definition mod_int :: "32 word \<Rightarrow> 32 word \<Rightarrow> 32 word" where
  \<comment> \<open>\<^verbatim>\<open>%\<close> on \<^verbatim>\<open>int\<close>: the remainder of the division truncated towards zero.\<close>
  "mod_int a b = word_of_int (sint a smod sint b)"

section \<open>The reader\<close>

text \<open>
  \<^verbatim>\<open>archivo.read(reinterpret_cast<char*>(&matriz[i][j]), sizeof(Pixel));\<close>

  The indices are in range wherever the function is called: \<open>i\<close> and \<open>j\<close> run below
  the height and the width the matrix was created with.
\<close>

definition leer_pixel :: "nat \<Rightarrow> nat \<Rightarrow> matriz \<times> ifstream \<Rightarrow> matriz \<times> ifstream" where
  "leer_pixel i j ms =
     (case ms of (matriz, archivo) \<Rightarrow>
        (case read sizeof_Pixel (bytes_de_Pixel (matriz ! i ! j)) archivo of
           (mem, archivo') \<Rightarrow> (matriz[i := (matriz ! i)[j := Pixel_de_bytes mem]], archivo')))"

text \<open>
  The body of the loop over the rows:
  \<^verbatim>\<open>for (int j = 0; j < header.width; ++j) { archivo.read(...); }\<close>
  \<^verbatim>\<open>archivo.seekg(header.width % 4, ios::cur);\<close>
\<close>

definition leer_fila :: "BMPHeader \<Rightarrow> nat \<Rightarrow> matriz \<times> ifstream \<Rightarrow> matriz \<times> ifstream" where
  "leer_fila header i ms =
     (case fold (leer_pixel i) [0..<nat (sint (width header))] ms of
        (matriz, archivo) \<Rightarrow> (matriz, seekg_cur (sint (mod_int (width header) 4)) archivo))"

text \<open>
  \<^verbatim>\<open>vector<vector<Pixel>> matriz(header.height, vector<Pixel>(header.width));\<close>

  The two \<^verbatim>\<open>int\<close> fields are converted to \<^verbatim>\<open>size_t\<close> counts. The argument
  \<^verbatim>\<open>vector<Pixel>(header.width)\<close> is built first: it asks the free store for
  \<^verbatim>\<open>width * sizeof(Pixel)\<close> bytes. The matrix then asks for
  \<^verbatim>\<open>height * sizeof(vector<Pixel>)\<close> bytes for its rows, and for \<^verbatim>\<open>width * sizeof(Pixel)\<close>
  bytes for the copy of the argument that each of the \<^verbatim>\<open>height\<close> rows holds; the
  argument is destroyed only after the matrix is built, so that all these bytes are
  held at the same time. \<^verbatim>\<open>sizeof(vector<Pixel>)\<close> is 24: three pointers of 8 bytes, on
  the platforms where \<^verbatim>\<open>size_t\<close> has 64 bits.
\<close>

definition sizeof_vector :: nat where
  "sizeof_vector = 24"

definition bytes_de_matriz :: "nat \<Rightarrow> nat \<Rightarrow> nat" where
  "bytes_de_matriz alto ancho =
     ancho * sizeof_Pixel + alto * sizeof_vector + alto * (ancho * sizeof_Pixel)"

text \<open>
  \<open>memoria\<close> is the number of bytes that the free store can provide to the process,
  the allocator's own bookkeeping apart. The construction fails in two ways, and both
  leave \<^verbatim>\<open>main\<close> as an uncaught exception, so that the process aborts without a matrix:
  \<^item> a negative \<^verbatim>\<open>header.height\<close> or \<^verbatim>\<open>header.width\<close> converts to a \<^verbatim>\<open>size_t\<close> above
    \<^verbatim>\<open>max_size()\<close>, and the constructor throws \<^verbatim>\<open>std::length_error\<close>;
  \<^item> when the free store cannot provide the bytes, \<^verbatim>\<open>operator new\<close> throws
    \<^verbatim>\<open>std::bad_alloc\<close>.

  Otherwise every pixel of the matrix is value-initialised, that is zero.
\<close>

definition crear_matriz :: "nat \<Rightarrow> int \<Rightarrow> int \<Rightarrow> error + matriz" where
  "crear_matriz memoria alto ancho =
     (if alto < 0 \<or> ancho < 0 then Inl Abortado
      else if memoria < bytes_de_matriz (nat alto) (nat ancho) then Inl Abortado
      else Inr (replicate (nat alto) (replicate (nat ancho) negro)))"

text \<open>
  \<^verbatim>\<open>leerArchivoBMP\<close>. \<open>fs\<close> holds the files, \<open>memoria\<close> is the free store, and
  \<open>basura\<close> the bytes that the memory of the local variable \<^verbatim>\<open>header\<close> holds before
  the read (it is not initialised, and the read stores fewer than 54 bytes when the file
  is shorter).
\<close>

definition leerArchivoBMP :: "nat \<Rightarrow> archivos \<Rightarrow> byte list \<Rightarrow> string \<Rightarrow> error + matriz" where
  "leerArchivoBMP memoria fs basura nombreArchivo =
     (case fs nombreArchivo of
        None \<Rightarrow> Inl (Exit 1)
      | Some datos \<Rightarrow>
          (case read sizeof_BMPHeader basura (abrir datos) of
             (mem, archivo) \<Rightarrow>
               let header = BMPHeader_de_bytes mem in
               if bitsPerPixel header \<noteq> 24 then Inl (Exit 1)
               else
                 let archivo' = seekg_beg (sint (dataOffset header)) archivo in
                 (case crear_matriz memoria (sint (height header)) (sint (width header)) of
                    Inl e \<Rightarrow> Inl e
                  | Inr matriz \<Rightarrow>
                      Inr (fst (fold (leer_fila header) [0..<nat (sint (height header))]
                                  (matriz, archivo'))))))"

section \<open>The writer\<close>

text \<open>\<^verbatim>\<open>xs[i]\<close> on a vector, with the bounds made explicit.\<close>

definition indice :: "'a list \<Rightarrow> nat \<Rightarrow> 'a option" where
  "indice xs i = (if i < length xs then Some (xs ! i) else None)"

text \<open>
  \<^verbatim>\<open>for (int j = 0; j < matriz[0].size(); ++j) { archivo.write(&matriz[i][j], sizeof(Pixel)); }\<close>

  The list holds the values of \<open>j\<close> still to come; the output file is the list of the
  bytes written so far.
\<close>

fun escribir_pixeles :: "matriz \<Rightarrow> nat \<Rightarrow> nat list \<Rightarrow> byte list \<Rightarrow> error + byte list" where
  "escribir_pixeles matriz i [] archivo = Inr archivo"
| "escribir_pixeles matriz i (j # js) archivo =
     (case indice matriz i of
        None \<Rightarrow> Inl FueraDeRango
      | Some fila \<Rightarrow>
          (case indice fila j of
             None \<Rightarrow> Inl FueraDeRango
           | Some pixel \<Rightarrow> escribir_pixeles matriz i js (archivo @ bytes_de_Pixel pixel)))"

text \<open>
  \<^verbatim>\<open>for (int k = 0; k < matriz[0].size() % 4; ++k) { char paddingByte = 0; archivo.write(&paddingByte, 1); }\<close>
\<close>

definition escribir_relleno :: "nat \<Rightarrow> byte list \<Rightarrow> byte list" where
  "escribir_relleno ancho archivo = fold (\<lambda>k a. a @ [0]) [0..<ancho mod 4] archivo"

text \<open>
  \<^verbatim>\<open>for (int i = 0; i < matriz.size(); ++i) { ... }\<close>, with \<open>ancho\<close> for
  \<^verbatim>\<open>matriz[0].size()\<close>.

  The counters \<open>i\<close> and \<open>j\<close> are \<^verbatim>\<open>int\<close>s compared with a \<^verbatim>\<open>size_t\<close>. A loop over
  the indices below a size of at most \<open>2 ^ 31 - 1\<close> ends with its counter equal to the
  size. Over a larger size the counter reaches \<open>2 ^ 31 - 1\<close>, the test still holds, and
  the increment overflows: for the pixels of a row here, once the row is written; for
  the rows in \<open>guardarMatrizEnBMP\<close> below, once all rows are written.
\<close>

fun escribir_filas :: "matriz \<Rightarrow> nat \<Rightarrow> nat list \<Rightarrow> byte list \<Rightarrow> error + byte list" where
  "escribir_filas matriz ancho [] archivo = Inr archivo"
| "escribir_filas matriz ancho (i # is) archivo =
     (case escribir_pixeles matriz i [0..<ancho] archivo of
        Inl e \<Rightarrow> Inl e
      | Inr archivo' \<Rightarrow>
          if 2 ^ 31 \<le> ancho then Inl DesbordeInt
          else escribir_filas matriz ancho is (escribir_relleno ancho archivo'))"

text \<open>
  The header the writer builds, from \<open>alto = matriz.size()\<close> and
  \<open>ancho = matriz[0].size()\<close>. The sizes are computed in \<^verbatim>\<open>size_t\<close> and stored in
  \<^verbatim>\<open>int\<close> fields, which keeps their low 32 bits.
\<close>

definition cabecera_de :: "nat \<Rightarrow> nat \<Rightarrow> BMPHeader" where
  "cabecera_de alto ancho =
     \<lparr>signature = (0x42, 0x4D),
      fileSize = word_of_nat (sizeof_BMPHeader + alto * (3 * ancho + ancho mod 4) + 2),
      reserved = 0,
      dataOffset = word_of_nat sizeof_BMPHeader,
      headerSize = 40,
      width = word_of_nat ancho,
      height = word_of_nat alto,
      planes = 1,
      bitsPerPixel = 24,
      compression = 0,
      dataSize = word_of_nat (alto * (3 * ancho + ancho mod 4) + 2),
      horizontalResolution = 0,
      verticalResolution = 0,
      colors = 0,
      importantColors = 0\<rparr>"

text \<open>
  \<^verbatim>\<open>guardarMatrizEnBMP\<close>. \<open>crea\<close> tells which paths can be opened for writing; the
  result is the files after the call. The first use of \<^verbatim>\<open>matriz[0]\<close> is in the
  computation of \<^verbatim>\<open>header.fileSize\<close>, after the stream was opened; the later uses of
  \<^verbatim>\<open>matriz[0].size()\<close> read the same value.
\<close>

definition guardarMatrizEnBMP ::
  "(string \<Rightarrow> bool) \<Rightarrow> archivos \<Rightarrow> string \<Rightarrow> matriz \<Rightarrow> error + archivos" where
  "guardarMatrizEnBMP crea fs nombreArchivo matriz =
     (if \<not> crea nombreArchivo then Inl (Exit 1)
      else
        (case indice matriz 0 of
           None \<Rightarrow> Inl FueraDeRango
         | Some fila0 \<Rightarrow>
             let header = cabecera_de (length matriz) (length fila0) in
             (case escribir_filas matriz (length fila0) [0..<length matriz]
                     (bytes_de_BMPHeader header) of
                Inl e \<Rightarrow> Inl e
              | Inr archivo \<Rightarrow>
                  if 2 ^ 31 \<le> length matriz then Inl DesbordeInt
                  else Inr (fs(nombreArchivo \<mapsto> archivo)))))"

text \<open>The bytes of one row of the file: its pixels, then the padding.\<close>

definition bytes_de_fila :: "Pixel list \<Rightarrow> byte list" where
  "bytes_de_fila fila = concat (map bytes_de_Pixel fila) @ replicate (length fila mod 4) 0"

text \<open>
  The pixel that one \<^verbatim>\<open>read\<close> of \<^verbatim>\<open>sizeof(Pixel)\<close> bytes at offset \<open>e\<close> of the file
  \<open>datos\<close> leaves in a value-initialised \<^verbatim>\<open>Pixel\<close>.
\<close>

definition pixel_en :: "byte list \<Rightarrow> nat \<Rightarrow> Pixel" where
  "pixel_en datos e =
     Pixel_de_bytes (fst (read sizeof_Pixel (bytes_de_Pixel negro)
                            \<lparr>contenido = datos, pos = e, failbit = False\<rparr>))"

text \<open>
  The stream reads the file \<open>datos\<close> and either stands at offset \<open>e\<close>, or has failed
  and the file ends at or before \<open>e\<close>.
\<close>

definition alineado :: "byte list \<Rightarrow> nat \<Rightarrow> ifstream \<Rightarrow> bool" where
  "alineado datos e s =
     (contenido s = datos \<and> (if failbit s then length datos \<le> e else pos s = e))"

text \<open>
  The row padding of the BMP format, with the formula of the specification:
  \<open>(4 - (3 * w) % 4) % 4\<close>.
\<close>

definition relleno_estandar :: "nat \<Rightarrow> nat" where
  "relleno_estandar w = (4 - (3 * w) mod 4) mod 4"

section \<open>The header in memory and in the file\<close>

lemma int_de_bytes_de_int: "int_de_bytes (bytes_de_int w) = w"
proof (rule bit_word_eqI)
  fix n
  assume "n < LENGTH(32)"
  then consider "n < 8" | "8 \<le> n" "n < 16" | "16 \<le> n" "n < 24" | "24 \<le> n" "n < 32"
    by fastforce
  then show "bit (int_de_bytes (bytes_de_int w)) n = bit w n"
    by cases (auto simp: int_de_bytes_def bytes_de_int_def bit_simps)
qed

lemma short_de_bytes_de_short: "short_de_bytes (bytes_de_short w) = w"
  unfolding short_de_bytes_def bytes_de_short_def
  by (rule bit_word_eqI) (auto simp: bit_simps)

lemma length_bytes_de_int [simp]: "length (bytes_de_int w) = 4"
  by (simp add: bytes_de_int_def)

lemma length_bytes_de_short [simp]: "length (bytes_de_short w) = 2"
  by (simp add: bytes_de_short_def)

lemma length_bytes_de_BMPHeader [simp]: "length (bytes_de_BMPHeader h) = 54"
  by (simp add: bytes_de_BMPHeader_def)

lemma campo_salta: "length xs \<le> k \<Longrightarrow> campo k n (xs @ ys) = campo (k - length xs) n ys"
  by (simp add: campo_def)

lemma campo_salta_Cons: "0 < k \<Longrightarrow> campo k n (x # ys) = campo (k - 1) n ys"
  by (cases k) (simp_all add: campo_def)

lemma campo_aqui: "length xs = n \<Longrightarrow> campo 0 n (xs @ ys) = xs"
  by (simp add: campo_def)

lemma BMPHeader_de_bytes_de_BMPHeader:
  "BMPHeader_de_bytes (bytes_de_BMPHeader h @ resto) = h"
proof -
  have "BMPHeader_de_bytes (bytes_de_BMPHeader h @ resto)
      = \<lparr>signature = signature h, fileSize = fileSize h, reserved = reserved h,
         dataOffset = dataOffset h, headerSize = headerSize h, width = width h,
         height = height h, planes = planes h, bitsPerPixel = bitsPerPixel h,
         compression = compression h, dataSize = dataSize h,
         horizontalResolution = horizontalResolution h,
         verticalResolution = verticalResolution h, colors = colors h,
         importantColors = importantColors h\<rparr>"
    unfolding BMPHeader_de_bytes_def bytes_de_BMPHeader_def
    by (simp add: campo_salta campo_salta_Cons campo_aqui int_de_bytes_de_int
        short_de_bytes_de_short)
  then show ?thesis by simp
qed

section \<open>What the writer produces\<close>

lemma escribir_pixeles_ok:
  "i < length m \<Longrightarrow> \<forall>j\<in>set js. j < length (m ! i) \<Longrightarrow>
   escribir_pixeles m i js out = Inr (out @ concat (map (\<lambda>j. bytes_de_Pixel (m ! i ! j)) js))"
  by (induction js arbitrary: out) (simp_all add: indice_def)

lemma map_nth_upt: "map (\<lambda>j. f (xs ! j)) [0..<length xs] = map f xs"
proof -
  have "map f (map ((!) xs) [0..<length xs]) = map f xs"
    by (simp only: map_nth)
  then show ?thesis
    by (simp only: map_map comp_def)
qed

lemma escribir_pixeles_fila:
  assumes "i < length m"
  shows "escribir_pixeles m i [0..<length (m ! i)] out
       = Inr (out @ concat (map bytes_de_Pixel (m ! i)))"
proof -
  have "map (\<lambda>j. bytes_de_Pixel (m ! i ! j)) [0..<length (m ! i)] = map bytes_de_Pixel (m ! i)"
    by (rule map_nth_upt)
  with assms show ?thesis
    by (simp add: escribir_pixeles_ok)
qed

lemma escribir_relleno_eq: "escribir_relleno ancho out = out @ replicate (ancho mod 4) 0"
proof -
  have "fold (\<lambda>k a. a @ [0 :: byte]) [0..<n] out = out @ replicate n 0" for n
    by (induction n) (simp_all add: replicate_append_same)
  then show ?thesis by (simp add: escribir_relleno_def)
qed

lemma escribir_filas_ok:
  "ancho < 2 ^ 31 \<Longrightarrow> \<forall>i\<in>set is. i < length m \<and> length (m ! i) = ancho \<Longrightarrow>
   escribir_filas m ancho is out = Inr (out @ concat (map (\<lambda>i. bytes_de_fila (m ! i)) is))"
proof (induction "is" arbitrary: out)
  case Nil
  then show ?case by simp
next
  case (Cons i "is")
  then have i: "i < length m" and w: "length (m ! i) = ancho"
    by simp_all
  have "escribir_pixeles m i [0..<ancho] out = Inr (out @ concat (map bytes_de_Pixel (m ! i)))"
    using escribir_pixeles_fila [OF i] w by simp
  with Cons show ?case
    by (simp add: escribir_relleno_eq bytes_de_fila_def w)
qed

lemma guardarMatrizEnBMP_ok:
  assumes ne: "m \<noteq> []" and filas: "\<forall>fila\<in>set m. length fila = w"
    and alto: "length m < 2 ^ 31" and ancho: "w < 2 ^ 31" and crea: "crea nombre"
  shows "guardarMatrizEnBMP crea fs nombre m
       = Inr (fs(nombre \<mapsto> bytes_de_BMPHeader (cabecera_de (length m) w)
                              @ concat (map bytes_de_fila m)))"
proof -
  from ne have i0: "indice m 0 = Some (m ! 0)"
    by (simp add: indice_def)
  from ne have "m ! 0 \<in> set m"
    by simp
  with filas have w0: "length (m ! 0) = w"
    by (rule bspec)
  have na: "\<not> 2 ^ 31 \<le> length m"
    using alto by simp
  have "\<forall>i\<in>set [0..<length m]. i < length m \<and> length (m ! i) = w"
  proof
    fix i
    assume "i \<in> set [0..<length m]"
    then have i: "i < length m" by simp
    then have "m ! i \<in> set m" by (rule nth_mem)
    with filas have "length (m ! i) = w" by (rule bspec)
    with i show "i < length m \<and> length (m ! i) = w" by (rule conjI)
  qed
  with ancho have "escribir_filas m w [0..<length m] (bytes_de_BMPHeader (cabecera_de (length m) w))
           = Inr (bytes_de_BMPHeader (cabecera_de (length m) w)
                  @ concat (map (\<lambda>i. bytes_de_fila (m ! i)) [0..<length m]))"
    by (rule escribir_filas_ok)
  also have "map (\<lambda>i. bytes_de_fila (m ! i)) [0..<length m] = map bytes_de_fila m"
    by (rule map_nth_upt)
  finally show ?thesis
    unfolding guardarMatrizEnBMP_def
    by (simp only: crea i0 w0 na not_True_eq_False if_False option.case Let_def sum.case)
qed

section \<open>What the reader returns\<close>

lemma Pixel_de_bytes_de_Pixel: "Pixel_de_bytes (bytes_de_Pixel p @ resto) = p"
  by (simp add: Pixel_de_bytes_def bytes_de_Pixel_def)

lemma pixel_en_fuera: "length datos \<le> e \<Longrightarrow> pixel_en datos e = negro"
  by (simp add: pixel_en_def read_def Pixel_de_bytes_def bytes_de_Pixel_def negro_def)

lemma leer_pixel_paso:
  assumes al: "alineado datos e s" and i: "i < length m" and j: "j < length (m ! i)"
    and z: "m ! i ! j = negro"
  shows "\<exists>s'. leer_pixel i j (m, s) = (m[i := (m ! i)[j := pixel_en datos e]], s')
              \<and> alineado datos (e + 3) s'"
proof (cases "failbit s")
  case True
  with al have "length datos \<le> e"
    by (simp add: alineado_def)
  then have "pixel_en datos e = negro"
    by (rule pixel_en_fuera)
  moreover have "Pixel_de_bytes (bytes_de_Pixel negro) = negro"
    using Pixel_de_bytes_de_Pixel [of negro "[]"] by simp
  ultimately have "leer_pixel i j (m, s) = (m[i := (m ! i)[j := pixel_en datos e]], s)"
    using True z by (simp add: leer_pixel_def read_def)
  moreover have "alineado datos (e + 3) s"
    using al True by (simp add: alineado_def)
  ultimately show ?thesis by blast
next
  case False
  with al have c: "contenido s = datos" and p: "pos s = e"
    by (simp_all add: alineado_def)
  let ?leidos = "take 3 (drop e datos)"
  let ?s' = "s\<lparr>pos := e + length ?leidos, failbit := length ?leidos < 3\<rparr>"
  have "leer_pixel i j (m, s) = (m[i := (m ! i)[j := pixel_en datos e]], ?s')"
    using False c p z
    by (simp add: leer_pixel_def read_def pixel_en_def sizeof_Pixel_def Let_def)
  moreover have "alineado datos (e + 3) ?s'"
    using c by (auto simp: alineado_def)
  ultimately show ?thesis by blast
qed

lemma leer_pixeles_fold:
  assumes al: "alineado datos e s" and i: "i < length m"
    and z: "\<forall>k<length (m ! i). m ! i ! k = negro"
  shows "j \<le> length (m ! i) \<Longrightarrow>
         \<exists>s'. fold (leer_pixel i) [0..<j] (m, s)
                 = (m[i := map (\<lambda>k. pixel_en datos (e + 3 * k)) [0..<j] @ drop j (m ! i)], s')
              \<and> alineado datos (e + 3 * j) s'"
proof (induction j)
  case 0
  with al show ?case by simp
next
  case (Suc j)
  let ?pre = "map (\<lambda>k. pixel_en datos (e + 3 * k)) [0..<j]"
  let ?mj = "m[i := ?pre @ drop j (m ! i)]"
  from Suc.prems have j: "j < length (m ! i)" by simp
  with Suc.IH obtain sj where
    f: "fold (leer_pixel i) [0..<j] (m, s) = (?mj, sj)" and alj: "alineado datos (e + 3 * j) sj"
    by auto
  have fila: "?mj ! i = ?pre @ drop j (m ! i)"
    using i by simp
  have lj: "j < length (?mj ! i)"
    using j by (simp add: fila)
  have zj: "?mj ! i ! j = negro"
    using j z by (simp add: fila nth_append)
  from leer_pixel_paso [OF alj _ lj zj] i obtain s' where
    p: "leer_pixel i j (?mj, sj) = (?mj[i := (?mj ! i)[j := pixel_en datos (e + 3 * j)]], s')"
    and al': "alineado datos (e + 3 * j + 3) s'"
    by auto
  have "(?pre @ drop j (m ! i))[j := pixel_en datos (e + 3 * j)]
      = ?pre @ pixel_en datos (e + 3 * j) # drop (Suc j) (m ! i)"
    using j by (simp add: list_update_append Cons_nth_drop_Suc [symmetric])
  then have "?mj[i := (?mj ! i)[j := pixel_en datos (e + 3 * j)]]
      = m[i := map (\<lambda>k. pixel_en datos (e + 3 * k)) [0..<Suc j] @ drop (Suc j) (m ! i)]"
    by (simp add: fila)
  with f p have "fold (leer_pixel i) [0..<Suc j] (m, s)
      = (m[i := map (\<lambda>k. pixel_en datos (e + 3 * k)) [0..<Suc j] @ drop (Suc j) (m ! i)], s')"
    by simp
  moreover have "alineado datos (e + 3 * Suc j) s'"
    using al' by (simp add: ac_simps)
  ultimately show ?case by blast
qed

lemma smod_4_nonneg: "0 \<le> k \<Longrightarrow> k smod (4 :: int) = k mod 4"
  by (cases "k = 0") (simp_all add: signed_modulo_int_def)

lemma sint_mod_int_4:
  assumes "0 \<le> sint a"
  shows "sint (mod_int a 4) = int (nat (sint a) mod 4)"
proof -
  have four: "sint (4 :: 32 word) = 4" by simp
  have "sint a smod sint (4 :: 32 word) = sint a mod 4"
    unfolding four using assms by (rule smod_4_nonneg)
  then have "mod_int a 4 = word_of_int (sint a mod 4)"
    by (simp only: mod_int_def)
  then have "sint (mod_int a 4) = signed_take_bit (LENGTH(32) - 1) (sint a mod 4)"
    by (simp only: sint_sbintrunc')
  also have "\<dots> = signed_take_bit 31 (sint a mod 4)"
    by simp
  also have "\<dots> = sint a mod 4"
  proof (rule signed_take_bit_int_eq_self)
    have "(0 :: int) \<le> sint a mod 4" by simp
    then show "- (2 ^ 31) \<le> sint a mod 4" by (rule order_trans [rotated]) simp
    have "sint a mod 4 < 4" by simp
    also have "(4 :: int) < 2 ^ 31" by simp
    finally show "sint a mod 4 < 2 ^ 31" .
  qed
  also have "\<dots> = int (nat (sint a) mod 4)"
    using assms by (simp add: zmod_int)
  finally show ?thesis .
qed

lemma seekg_cur_alineado:
  assumes "alineado datos e s"
  shows "alineado datos (e + n) (seekg_cur (int n) s)"
  using assms by (auto simp: alineado_def seekg_cur_def)

lemma leer_fila_paso:
  assumes al: "alineado datos e s" and i: "i < length m"
    and w: "0 \<le> sint (width header)" and l: "length (m ! i) = nat (sint (width header))"
    and z: "\<forall>k<length (m ! i). m ! i ! k = negro"
  shows "\<exists>s'. leer_fila header i (m, s)
                 = (m[i := map (\<lambda>k. pixel_en datos (e + 3 * k)) [0..<nat (sint (width header))]], s')
              \<and> alineado datos (e + 3 * nat (sint (width header)) + nat (sint (width header)) mod 4) s'"
proof -
  let ?w = "nat (sint (width header))"
  from leer_pixeles_fold [OF al i z, of ?w] l obtain s1 where
    f: "fold (leer_pixel i) [0..<?w] (m, s)
          = (m[i := map (\<lambda>k. pixel_en datos (e + 3 * k)) [0..<?w]], s1)"
    and al1: "alineado datos (e + 3 * ?w) s1"
    by auto
  have "alineado datos (e + 3 * ?w + ?w mod 4) (seekg_cur (int (?w mod 4)) s1)"
    using al1 by (rule seekg_cur_alineado)
  with f show ?thesis
    by (simp add: leer_fila_def sint_mod_int_4 [OF w])
qed

lemma leer_filas_fold:
  assumes al: "alineado datos e s" and w: "0 \<le> sint (width header)"
  shows "k \<le> h \<Longrightarrow>
         \<exists>s'. fold (leer_fila header) [0..<k]
                  (replicate h (replicate (nat (sint (width header))) negro), s)
                 = (map (\<lambda>i. map (\<lambda>j. pixel_en datos
                                          (e + i * (3 * nat (sint (width header))
                                                    + nat (sint (width header)) mod 4) + 3 * j))
                                 [0..<nat (sint (width header))]) [0..<k]
                      @ replicate (h - k) (replicate (nat (sint (width header))) negro), s')
              \<and> alineado datos
                    (e + k * (3 * nat (sint (width header)) + nat (sint (width header)) mod 4)) s'"
proof (induction k)
  case 0
  with al show ?case by simp
next
  case (Suc k)
  let ?w = "nat (sint (width header))"
  let ?L = "3 * ?w + ?w mod 4"
  let ?fila = "\<lambda>i. map (\<lambda>j. pixel_en datos (e + i * ?L + 3 * j)) [0..<?w]"
  let ?mk = "map ?fila [0..<k] @ replicate (h - k) (replicate ?w negro)"
  from Suc.prems have k: "k < h" by simp
  with Suc.IH obtain sk where
    f: "fold (leer_fila header) [0..<k] (replicate h (replicate ?w negro), s) = (?mk, sk)"
    and alk: "alineado datos (e + k * ?L) sk"
    by auto
  have fk: "?mk ! k = replicate ?w negro"
    using k by (simp add: nth_append)
  have lk: "k < length ?mk"
    using k by simp
  have lw: "length (?mk ! k) = ?w"
    by (simp add: fk)
  have zk: "\<forall>j<length (?mk ! k). ?mk ! k ! j = negro"
    by (simp add: fk)
  from leer_fila_paso [OF alk lk w lw zk] obtain s' where
    p: "leer_fila header k (?mk, sk) = (?mk[k := ?fila k], s')"
    and al': "alineado datos (e + k * ?L + 3 * ?w + ?w mod 4) s'"
    by auto
  have "replicate (h - k) (replicate ?w negro)
      = replicate ?w negro # replicate (h - Suc k) (replicate ?w negro)"
    using k by (simp add: replicate_Suc [symmetric] Suc_diff_Suc del: replicate_Suc)
  then have "?mk[k := ?fila k]
      = map ?fila [0..<Suc k] @ replicate (h - Suc k) (replicate ?w negro)"
    by (simp add: list_update_append)
  with f p have "fold (leer_fila header) [0..<Suc k] (replicate h (replicate ?w negro), s)
      = (map ?fila [0..<Suc k] @ replicate (h - Suc k) (replicate ?w negro), s')"
    by simp
  moreover have "alineado datos (e + Suc k * ?L) s'"
    using al' by (simp add: ac_simps)
  ultimately show ?case by blast
qed

lemma leerArchivoBMP_contenido:
  assumes ab: "fs nombre = Some datos"
    and hdr: "header = BMPHeader_de_bytes (fst (read sizeof_BMPHeader basura (abrir datos)))"
    and bpp: "bitsPerPixel header = 24"
    and h: "0 \<le> sint (height header)" and w: "0 \<le> sint (width header)"
    and mem: "bytes_de_matriz (nat (sint (height header))) (nat (sint (width header))) \<le> memoria"
    and al: "alineado datos e
               (seekg_beg (sint (dataOffset header))
                  (snd (read sizeof_BMPHeader basura (abrir datos))))"
  shows "leerArchivoBMP memoria fs basura nombre
       = Inr (map (\<lambda>i. map (\<lambda>j. pixel_en datos
                                    (e + i * (3 * nat (sint (width header))
                                              + nat (sint (width header)) mod 4) + 3 * j))
                           [0..<nat (sint (width header))])
                [0..<nat (sint (height header))])"
proof -
  let ?h = "nat (sint (height header))"
  let ?s = "seekg_beg (sint (dataOffset header)) (snd (read sizeof_BMPHeader basura (abrir datos)))"
  from leer_filas_fold [OF al w, of ?h ?h] obtain s' where
    "fold (leer_fila header) [0..<?h] (replicate ?h (replicate (nat (sint (width header))) negro), ?s)
       = (map (\<lambda>i. map (\<lambda>j. pixel_en datos
                                    (e + i * (3 * nat (sint (width header))
                                              + nat (sint (width header)) mod 4) + 3 * j))
                           [0..<nat (sint (width header))]) [0..<?h], s')"
    by auto
  then show ?thesis
    using ab bpp h w mem
    by (simp add: leerArchivoBMP_def crear_matriz_def hdr [symmetric] split_beta Let_def)
qed

lemma alineado_inicial:
  "alineado datos
     (if sizeof_BMPHeader \<le> length datos \<and> 0 \<le> off then nat off else length datos)
     (seekg_beg off (snd (read sizeof_BMPHeader basura (abrir datos))))"
  by (auto simp: alineado_def seekg_beg_def read_def abrir_def Let_def)

lemma nat_sint_menor: "nat (sint (x :: 32 word)) < 2 ^ 31"
proof -
  have "sint x < 2 ^ (LENGTH(32) - 1)" by (rule sint_lt)
  then have "sint x < 2 ^ 31" by simp
  then show ?thesis by simp
qed

lemma leerArchivoBMP_casos:
  assumes ab: "fs nombre = Some datos"
    and hdr: "header = BMPHeader_de_bytes (fst (read sizeof_BMPHeader basura (abrir datos)))"
  shows "leerArchivoBMP memoria fs basura nombre =
     (if bitsPerPixel header \<noteq> 24 then Inl (Exit 1)
      else if sint (height header) < 0 \<or> sint (width header) < 0
              \<or> memoria < bytes_de_matriz (nat (sint (height header))) (nat (sint (width header)))
           then Inl Abortado
      else Inr (map (\<lambda>i. map (\<lambda>j. pixel_en datos
                  ((if sizeof_BMPHeader \<le> length datos \<and> 0 \<le> sint (dataOffset header)
                    then nat (sint (dataOffset header)) else length datos)
                   + i * (3 * nat (sint (width header)) + nat (sint (width header)) mod 4) + 3 * j))
                 [0..<nat (sint (width header))])
               [0..<nat (sint (height header))]))"
proof (cases "bitsPerPixel header \<noteq> 24")
  case True
  with ab show ?thesis
    by (simp add: leerArchivoBMP_def hdr [symmetric] split_beta Let_def)
next
  case bpp: False
  show ?thesis
  proof (cases "sint (height header) < 0 \<or> sint (width header) < 0
              \<or> memoria < bytes_de_matriz (nat (sint (height header))) (nat (sint (width header)))")
    case True
    with ab bpp show ?thesis
      by (auto simp add: leerArchivoBMP_def crear_matriz_def hdr [symmetric] split_beta Let_def)
  next
    case False
    then have h: "0 \<le> sint (height header)" and w: "0 \<le> sint (width header)"
      and mem: "bytes_de_matriz (nat (sint (height header))) (nat (sint (width header))) \<le> memoria"
      by simp_all
    from bpp have b: "bitsPerPixel header = 24" by simp
    show ?thesis
      using leerArchivoBMP_contenido [where fs = fs and nombre = nombre,
          OF ab hdr b h w mem alineado_inicial] bpp False
      by simp
  qed
qed

lemma leer_dimensiones:
  assumes "leerArchivoBMP memoria fs basura nombre = Inr m"
  shows "length m < 2 ^ 31 \<and> (\<forall>fila\<in>set m. length fila < 2 ^ 31)"
proof (cases "fs nombre")
  case None
  with assms show ?thesis by (simp add: leerArchivoBMP_def)
next
  case (Some datos)
  define header where "header = BMPHeader_de_bytes (fst (read sizeof_BMPHeader basura (abrir datos)))"
  define f where "f = (\<lambda>i j. pixel_en datos
      ((if sizeof_BMPHeader \<le> length datos \<and> 0 \<le> sint (dataOffset header)
        then nat (sint (dataOffset header)) else length datos)
       + i * (3 * nat (sint (width header)) + nat (sint (width header)) mod 4) + 3 * j))"
  have "leerArchivoBMP memoria fs basura nombre =
     (if bitsPerPixel header \<noteq> 24 then Inl (Exit 1)
      else if sint (height header) < 0 \<or> sint (width header) < 0
              \<or> memoria < bytes_de_matriz (nat (sint (height header))) (nat (sint (width header)))
           then Inl Abortado
      else Inr (map (\<lambda>i. map (f i) [0..<nat (sint (width header))])
                  [0..<nat (sint (height header))]))"
    unfolding f_def
    by (rule leerArchivoBMP_casos [where fs = fs and nombre = nombre, OF Some header_def])
  with assms have m: "m = map (\<lambda>i. map (f i) [0..<nat (sint (width header))])
                           [0..<nat (sint (height header))]"
    by (simp split: if_splits)
  have "length m = nat (sint (height header))"
    by (simp add: m)
  moreover have "length fila = nat (sint (width header))" if "fila \<in> set m" for fila
    using that by (auto simp: m)
  ultimately show ?thesis
    using nat_sint_menor [of "height header"] nat_sint_menor [of "width header"]
    by simp
qed

section \<open>Writing, then reading\<close>

lemma drop_concat_uniforme:
  "\<forall>x\<in>set xs. length (f x) = L \<Longrightarrow> i < length xs \<Longrightarrow>
   drop (i * L) (concat (map f xs)) = f (xs ! i) @ concat (map f (drop (Suc i) xs))"
proof (induction xs arbitrary: i)
  case Nil
  then show ?case by simp
next
  case (Cons x xs)
  show ?case
  proof (cases i)
    case 0
    then show ?thesis by simp
  next
    case (Suc i')
    with Cons.prems have "i' < length xs" and "\<forall>x\<in>set xs. length (f x) = L" and "length (f x) = L"
      by simp_all
    with Cons.IH [of i'] Suc show ?thesis
      by simp
  qed
qed

lemma length_concat_bytes_de_Pixel: "length (concat (map bytes_de_Pixel fila)) = 3 * length fila"
  by (induction fila) (simp_all add: bytes_de_Pixel_def)

lemma length_bytes_de_fila: "length (bytes_de_fila fila) = 3 * length fila + length fila mod 4"
  by (simp add: bytes_de_fila_def length_concat_bytes_de_Pixel)

lemma pixel_en_bytes:
  assumes "take 3 (drop e datos) = bytes_de_Pixel p"
  shows "pixel_en datos e = p"
proof -
  have "length (bytes_de_Pixel p) = 3"
    by (simp add: bytes_de_Pixel_def)
  with assms show ?thesis
    by (simp add: pixel_en_def read_def sizeof_Pixel_def Let_def Pixel_de_bytes_de_Pixel)
qed

lemma take_drop_fila:
  assumes j: "j < length fila"
  shows "take 3 (drop (3 * j) (bytes_de_fila fila @ resto)) = bytes_de_Pixel (fila ! j)"
proof -
  have u: "\<forall>p\<in>set fila. length (bytes_de_Pixel p) = 3"
    by (simp add: bytes_de_Pixel_def)
  have "drop (j * 3) (concat (map bytes_de_Pixel fila))
      = bytes_de_Pixel (fila ! j) @ concat (map bytes_de_Pixel (drop (Suc j) fila))"
    using u j by (rule drop_concat_uniforme)
  moreover have "3 * j \<le> length (concat (map bytes_de_Pixel fila))"
    using j by (simp add: length_concat_bytes_de_Pixel)
  ultimately have "drop (3 * j) (bytes_de_fila fila @ resto)
      = bytes_de_Pixel (fila ! j) @ concat (map bytes_de_Pixel (drop (Suc j) fila))
          @ replicate (length fila mod 4) 0 @ resto"
    by (simp add: bytes_de_fila_def mult.commute)
  then show ?thesis
    by (simp add: bytes_de_Pixel_def)
qed

lemma pixel_en_archivo:
  assumes filas: "\<forall>fila\<in>set m. length fila = w" and i: "i < length m" and j: "j < w"
    and cab: "length cab = c"
  shows "pixel_en (cab @ concat (map bytes_de_fila m)) (c + i * (3 * w + w mod 4) + 3 * j)
       = m ! i ! j"
proof (rule pixel_en_bytes)
  from i have "m ! i \<in> set m" by (rule nth_mem)
  with filas have li: "length (m ! i) = w" by (rule bspec)
  have u: "\<forall>fila\<in>set m. length (bytes_de_fila fila) = 3 * w + w mod 4"
    using filas by (simp add: length_bytes_de_fila)
  have d: "drop (i * (3 * w + w mod 4)) (concat (map bytes_de_fila m))
      = bytes_de_fila (m ! i) @ concat (map bytes_de_fila (drop (Suc i) m))"
    using u i by (rule drop_concat_uniforme)
  have "drop (c + i * (3 * w + w mod 4) + 3 * j) (cab @ concat (map bytes_de_fila m))
      = drop (3 * j) (drop (i * (3 * w + w mod 4)) (concat (map bytes_de_fila m)))"
    using cab by (simp add: ac_simps)
  also have "\<dots> = drop (3 * j) (bytes_de_fila (m ! i) @ concat (map bytes_de_fila (drop (Suc i) m)))"
    by (simp only: d)
  finally show "take 3 (drop (c + i * (3 * w + w mod 4) + 3 * j) (cab @ concat (map bytes_de_fila m)))
      = bytes_de_Pixel (m ! i ! j)"
    using take_drop_fila [of j "m ! i"] j li by simp
qed

lemma sint_word_of_nat:
  assumes "n < 2 ^ 31"
  shows "sint (word_of_nat n :: 32 word) = int n"
proof -
  have "(0 :: int) \<le> int n" by (rule of_nat_0_le_iff)
  then have lo: "- (2 ^ 31) \<le> int n" by (rule order_trans [rotated]) simp
  from assms have "int n < int (2 ^ 31)" by (simp only: of_nat_less_iff)
  then have hi: "int n < 2 ^ 31" by simp
  have "sint (word_of_int (int n) :: 32 word) = signed_take_bit (LENGTH(32) - 1) (int n)"
    by (simp only: sint_sbintrunc')
  also have "\<dots> = signed_take_bit 31 (int n)"
    by simp
  also have "\<dots> = int n"
    using lo hi by (rule signed_take_bit_int_eq_self)
  finally show ?thesis by simp
qed

lemma read_cabecera:
  "read sizeof_BMPHeader basura (abrir (bytes_de_BMPHeader H @ cuerpo))
     = (bytes_de_BMPHeader H @ drop 54 basura,
        \<lparr>contenido = bytes_de_BMPHeader H @ cuerpo, pos = 54, failbit = False\<rparr>)"
  by (simp add: read_def abrir_def sizeof_BMPHeader_def Let_def)

lemma leer_de_guardado:
  assumes filas: "\<forall>fila\<in>set m. length fila = w"
    and alto: "length m < 2 ^ 31" and ancho: "w < 2 ^ 31"
    and mem: "bytes_de_matriz (length m) w \<le> memoria"
    and ab: "fs nombre = Some (bytes_de_BMPHeader (cabecera_de (length m) w)
                                @ concat (map bytes_de_fila m))"
  shows "leerArchivoBMP memoria fs basura nombre = Inr m"
proof -
  let ?H = "cabecera_de (length m) w"
  let ?datos = "bytes_de_BMPHeader ?H @ concat (map bytes_de_fila m)"
  have hdr: "?H = BMPHeader_de_bytes (fst (read sizeof_BMPHeader basura (abrir ?datos)))"
    by (simp only: read_cabecera fst_conv BMPHeader_de_bytes_de_BMPHeader)
  have bpp: "bitsPerPixel ?H = 24"
    by (simp add: cabecera_de_def)
  have sh: "sint (height ?H) = int (length m)"
    using alto by (simp add: cabecera_de_def sint_word_of_nat)
  have sw: "sint (width ?H) = int w"
    using ancho by (simp add: cabecera_de_def sint_word_of_nat)
  have off: "sint (dataOffset ?H) = 54"
    by (simp add: cabecera_de_def sizeof_BMPHeader_def)
  have al: "alineado ?datos 54
              (seekg_beg (sint (dataOffset ?H)) (snd (read sizeof_BMPHeader basura (abrir ?datos))))"
    by (simp add: read_cabecera off seekg_beg_def alineado_def)
  have h0: "0 \<le> sint (height ?H)" and w0: "0 \<le> sint (width ?H)"
    by (simp_all add: sh sw)
  have m0: "bytes_de_matriz (nat (sint (height ?H))) (nat (sint (width ?H))) \<le> memoria"
    using mem by (simp add: sh sw)
  have "leerArchivoBMP memoria fs basura nombre
      = Inr (map (\<lambda>i. map (\<lambda>j. pixel_en ?datos (54 + i * (3 * w + w mod 4) + 3 * j)) [0..<w])
               [0..<length m])"
    using leerArchivoBMP_contenido [where fs = fs and nombre = nombre, OF ab hdr bpp h0 w0 m0 al]
    by (simp add: sh sw)
  also have "map (\<lambda>i. map (\<lambda>j. pixel_en ?datos (54 + i * (3 * w + w mod 4) + 3 * j)) [0..<w])
               [0..<length m] = m"
  proof (rule nth_equalityI)
    show "length (map (\<lambda>i. map (\<lambda>j. pixel_en ?datos (54 + i * (3 * w + w mod 4) + 3 * j))
                              [0..<w]) [0..<length m]) = length m"
      by simp
  next
    fix i
    assume "i < length (map (\<lambda>i. map (\<lambda>j. pixel_en ?datos (54 + i * (3 * w + w mod 4) + 3 * j))
                              [0..<w]) [0..<length m])"
    then have i: "i < length m" by simp
    then have "m ! i \<in> set m" by (rule nth_mem)
    with filas have li: "length (m ! i) = w" by (rule bspec)
    have "map (\<lambda>j. pixel_en ?datos (54 + i * (3 * w + w mod 4) + 3 * j)) [0..<w] = m ! i"
    proof (rule nth_equalityI)
      show "length (map (\<lambda>j. pixel_en ?datos (54 + i * (3 * w + w mod 4) + 3 * j)) [0..<w])
          = length (m ! i)"
        by (simp add: li)
    next
      fix j
      assume "j < length (map (\<lambda>j. pixel_en ?datos (54 + i * (3 * w + w mod 4) + 3 * j)) [0..<w])"
      then have j: "j < w" by simp
      have "pixel_en ?datos (54 + i * (3 * w + w mod 4) + 3 * j) = m ! i ! j"
        using filas i j by (rule pixel_en_archivo) simp
      with j show "map (\<lambda>j. pixel_en ?datos (54 + i * (3 * w + w mod 4) + 3 * j)) [0..<w] ! j
          = m ! i ! j"
        by simp
    qed
    with i show "map (\<lambda>i. map (\<lambda>j. pixel_en ?datos (54 + i * (3 * w + w mod 4) + 3 * j)) [0..<w])
                   [0..<length m] ! i = m ! i"
      by simp
  qed
  finally show ?thesis .
qed

lemma ida_y_vuelta:
  assumes ne: "m \<noteq> []" and filas: "\<forall>fila\<in>set m. length fila = w"
    and alto: "length m < 2 ^ 31" and ancho: "w < 2 ^ 31" and crea: "crea nombre"
    and mem: "bytes_de_matriz (length m) w \<le> memoria"
  shows "\<exists>fs'. guardarMatrizEnBMP crea fs nombre m = Inr fs'
             \<and> leerArchivoBMP memoria fs' basura nombre = Inr m"
proof -
  let ?fs' = "fs(nombre \<mapsto> bytes_de_BMPHeader (cabecera_de (length m) w)
                              @ concat (map bytes_de_fila m))"
  have "guardarMatrizEnBMP crea fs nombre m = Inr ?fs'"
    using ne filas alto ancho crea by (rule guardarMatrizEnBMP_ok)
  moreover have "leerArchivoBMP memoria ?fs' basura nombre = Inr m"
    using filas alto ancho mem by (rule leer_de_guardado) simp
  ultimately show ?thesis by blast
qed

lemma leer_aborta:
  assumes ab: "fs nombre = Some (bytes_de_BMPHeader H @ cuerpo)"
    and bpp: "bitsPerPixel H = 24"
    and neg: "sint (height H) < 0 \<or> sint (width H) < 0
              \<or> memoria < bytes_de_matriz (nat (sint (height H))) (nat (sint (width H)))"
  shows "leerArchivoBMP memoria fs basura nombre = Inl Abortado"
  using ab bpp neg
  by (auto simp add: leerArchivoBMP_def crear_matriz_def read_cabecera
      BMPHeader_de_bytes_de_BMPHeader Let_def)

text \<open>
  Claim C4, amended. For every non-empty rectangular pixel grid whose height and width
  are below \<open>2 ^ 31\<close> (they are stored in the header's \<^verbatim>\<open>int\<close> fields), reading with
  \<^verbatim>\<open>leerArchivoBMP\<close> the file that \<^verbatim>\<open>guardarMatrizEnBMP\<close> wrote gives the grid that was
  written. The width may even be 0. The grid that is read back is one that is held in
  memory already: the last hypothesis says that the free store has room for the reader's
  matrix of the same height and width, whatever its size \<open>memoria\<close>.
\<close>

theorem ida_y_vuelta_BMP:
  assumes "m \<noteq> []" and "\<forall>fila\<in>set m. length fila = w"
    and "length m < 2 ^ 31" and "w < 2 ^ 31" and "crea nombre"
    and "bytes_de_matriz (length m) w \<le> memoria"
  shows "\<exists>fs'. guardarMatrizEnBMP crea fs nombre m = Inr fs'
             \<and> leerArchivoBMP memoria fs' basura nombre = Inr m"
  using assms by (rule ida_y_vuelta)

text \<open>
  A grid of one row of five pixels, which is written with one byte of padding, on a
  machine whose free store has 1024 bytes.
\<close>

theorem ida_y_vuelta_BMP_witness:
  "\<exists>fs'. guardarMatrizEnBMP (\<lambda>n. True) (\<lambda>n. None) ''salida.bmp''
            [[\<lparr>blue = 1, green = 2, red = 3\<rparr>, \<lparr>blue = 4, green = 5, red = 6\<rparr>,
              \<lparr>blue = 7, green = 8, red = 9\<rparr>, \<lparr>blue = 10, green = 11, red = 12\<rparr>,
              \<lparr>blue = 13, green = 14, red = 15\<rparr>]] = Inr fs'
         \<and> leerArchivoBMP 1024 fs' [] ''salida.bmp''
           = Inr [[\<lparr>blue = 1, green = 2, red = 3\<rparr>, \<lparr>blue = 4, green = 5, red = 6\<rparr>,
                   \<lparr>blue = 7, green = 8, red = 9\<rparr>, \<lparr>blue = 10, green = 11, red = 12\<rparr>,
                   \<lparr>blue = 13, green = 14, red = 15\<rparr>]]"
  by (rule ida_y_vuelta_BMP [where w = 5])
    (simp_all add: bytes_de_matriz_def sizeof_Pixel_def sizeof_vector_def)

text \<open>
  Claim C4 as stated, for every non-empty rectangular grid, fails for a grid of one
  row of \<open>2 ^ 31\<close> pixels: the writer's \<^verbatim>\<open>int\<close> counter overflows at the end of the
  row, and the width does not fit the \<^verbatim>\<open>int\<close> field \<^verbatim>\<open>header.width\<close>. Whatever a file
  holds and however large the free store is, it is not read as this grid: the height
  and the width of what the reader returns are values of an \<^verbatim>\<open>int\<close>.
\<close>

theorem ida_y_vuelta_BMP_counterexample:
  "\<not> (\<exists>fs' memoria. guardarMatrizEnBMP (\<lambda>n. True) (\<lambda>n. None) ''salida.bmp''
              [replicate (2 ^ 31) negro] = Inr fs'
           \<and> leerArchivoBMP memoria fs' [] ''salida.bmp'' = Inr [replicate (2 ^ 31) negro])
   \<and> \<not> (\<exists>memoria fs basura nombre.
           leerArchivoBMP memoria fs basura nombre = Inr [replicate (2 ^ 31) negro])"
proof (rule conjI)
  show "\<not> (\<exists>memoria fs basura nombre.
           leerArchivoBMP memoria fs basura nombre = Inr [replicate (2 ^ 31) negro])"
  proof
    assume "\<exists>memoria fs basura nombre.
           leerArchivoBMP memoria fs basura nombre = Inr [replicate (2 ^ 31) negro]"
    then obtain memoria fs basura nombre
      where "leerArchivoBMP memoria fs basura nombre = Inr [replicate (2 ^ 31) negro]"
      by blast
    then have "\<forall>fila\<in>set [replicate (2 ^ 31) negro]. length fila < 2 ^ 31"
      by (rule leer_dimensiones [THEN conjunct2])
    then show False
      by simp
  qed
next
  have "guardarMatrizEnBMP (\<lambda>n. True) (\<lambda>n. None) ''salida.bmp'' [replicate (2 ^ 31) negro]
      = Inl DesbordeInt"
    using escribir_pixeles_fila [of 0 "[replicate (2 ^ 31) negro]"]
    by (simp add: guardarMatrizEnBMP_def indice_def)
  then show "\<not> (\<exists>fs' memoria. guardarMatrizEnBMP (\<lambda>n. True) (\<lambda>n. None) ''salida.bmp''
              [replicate (2 ^ 31) negro] = Inr fs'
           \<and> leerArchivoBMP memoria fs' [] ''salida.bmp'' = Inr [replicate (2 ^ 31) negro])"
    by simp
qed

section \<open>The row padding\<close>

lemma relleno_es_estandar: "w mod 4 = relleno_estandar w"
proof -
  have t: "(3 * w) mod 4 = (3 * (w mod 4)) mod 4"
    by (simp add: mod_mult_right_eq)
  have "w mod 4 < 4" by simp
  then consider "w mod 4 = 0" | "w mod 4 = 1" | "w mod 4 = 2" | "w mod 4 = 3"
    by linarith
  then show ?thesis
    by cases (simp_all add: relleno_estandar_def t)
qed

lemma snd_read:
  assumes "\<not> failbit s" and "pos s + n \<le> length (contenido s)"
  shows "snd (read n destino s) = s\<lparr>pos := pos s + n\<rparr>"
  using assms by (cases s) (simp add: read_def Let_def)

lemma snd_leer_pixel:
  assumes "\<not> failbit s" and "pos s + 3 \<le> length (contenido s)"
  shows "snd (leer_pixel i j (m, s)) = s\<lparr>pos := pos s + 3\<rparr>"
  using snd_read [OF assms, of "bytes_de_Pixel (m ! i ! j)"]
  by (simp add: leer_pixel_def sizeof_Pixel_def split_beta)

lemma snd_leer_pixeles:
  assumes "\<not> failbit s"
  shows "pos s + 3 * n \<le> length (contenido s) \<Longrightarrow>
         snd (fold (leer_pixel i) [0..<n] (m, s)) = s\<lparr>pos := pos s + 3 * n\<rparr>"
proof (induction n)
  case 0
  then show ?case by simp
next
  case (Suc n)
  obtain m' s' where f: "fold (leer_pixel i) [0..<n] (m, s) = (m', s')"
    by (cases "fold (leer_pixel i) [0..<n] (m, s)")
  with Suc have s': "s' = s\<lparr>pos := pos s + 3 * n\<rparr>"
    by simp
  have "snd (leer_pixel i n (m', s')) = s'\<lparr>pos := pos s' + 3\<rparr>"
    using assms Suc.prems by (intro snd_leer_pixel) (simp_all add: s')
  with f show ?case
    by (simp add: s')
qed

lemma seekg_cur_nat:
  assumes "\<not> failbit s"
  shows "seekg_cur (int n) s = s\<lparr>pos := pos s + n\<rparr>"
proof -
  have "nat (int (pos s) + int n) = pos s + n"
    by (simp only: of_nat_add [symmetric] nat_int)
  with assms show ?thesis
    by (simp add: seekg_cur_def)
qed

lemma snd_leer_fila:
  assumes w: "0 \<le> sint (width header)" and nf: "\<not> failbit s"
    and l: "pos s + 3 * nat (sint (width header)) \<le> length (contenido s)"
  shows "snd (leer_fila header i (m, s))
       = s\<lparr>pos := pos s + 3 * nat (sint (width header)) + nat (sint (width header)) mod 4\<rparr>"
proof -
  let ?w = "nat (sint (width header))"
  obtain m' s' where f: "fold (leer_pixel i) [0..<?w] (m, s) = (m', s')"
    by (cases "fold (leer_pixel i) [0..<?w] (m, s)")
  with snd_leer_pixeles [OF nf l, of i m] have s': "s' = s\<lparr>pos := pos s + 3 * ?w\<rparr>"
    by simp
  have "seekg_cur (int (?w mod 4)) s' = s\<lparr>pos := pos s + 3 * ?w + ?w mod 4\<rparr>"
    using nf by (simp add: s' seekg_cur_nat)
  then show ?thesis
    by (simp add: leer_fila_def f sint_mod_int_4 [OF w])
qed

text \<open>
  Claim C6, amended. For every image of width \<open>w\<close> the writer emits exactly \<open>w mod 4\<close>
  zero bytes after the \<open>w\<close> pixels of each row, and the reader, after reading the \<open>w\<close>
  pixels of a row, skips exactly \<open>w mod 4\<close> bytes: the same amount on both sides. This
  amount is the row padding of the BMP format, \<open>(4 - (3 * w) mod 4) mod 4\<close>, for every \<open>w\<close>.

  The theorem states it for the file as a whole (the header, then each row followed by
  \<open>w mod 4\<close> zero bytes; an image has a height and a width below \<open>2 ^ 31\<close>), for the
  position of the reader's stream after a row, and for the padding loop of the writer
  alone, whatever the width.
\<close>

theorem relleno_ancho_mod_4:
  "(m \<noteq> [] \<and> (\<forall>fila\<in>set m. length fila = w) \<and> length m < 2 ^ 31 \<and> w < 2 ^ 31
      \<and> crea nombre \<longrightarrow>
      guardarMatrizEnBMP crea fs nombre m
        = Inr (fs(nombre \<mapsto> bytes_de_BMPHeader (cabecera_de (length m) w)
                 @ concat (map (\<lambda>fila. concat (map bytes_de_Pixel fila) @ replicate (w mod 4) 0) m))))
   \<and> (0 \<le> sint (width header) \<and> \<not> failbit s
        \<and> pos s + 3 * nat (sint (width header)) \<le> length (contenido s) \<longrightarrow>
      snd (leer_fila header i (matriz, s))
        = s\<lparr>pos := pos s + 3 * nat (sint (width header)) + nat (sint (width header)) mod 4\<rparr>)
   \<and> w mod 4 = relleno_estandar w
   \<and> escribir_relleno w archivo = archivo @ replicate (w mod 4) 0"
proof (intro conjI impI)
  assume a: "m \<noteq> [] \<and> (\<forall>fila\<in>set m. length fila = w) \<and> length m < 2 ^ 31 \<and> w < 2 ^ 31
      \<and> crea nombre"
  then have "map bytes_de_fila m
           = map (\<lambda>fila. concat (map bytes_de_Pixel fila) @ replicate (w mod 4) 0) m"
    by (simp add: bytes_de_fila_def)
  with a guardarMatrizEnBMP_ok [where m = m and w = w and crea = crea and nombre = nombre and fs = fs]
  show "guardarMatrizEnBMP crea fs nombre m
        = Inr (fs(nombre \<mapsto> bytes_de_BMPHeader (cabecera_de (length m) w)
                 @ concat (map (\<lambda>fila. concat (map bytes_de_Pixel fila) @ replicate (w mod 4) 0) m)))"
    by simp
next
  assume "0 \<le> sint (width header) \<and> \<not> failbit s
        \<and> pos s + 3 * nat (sint (width header)) \<le> length (contenido s)"
  then show "snd (leer_fila header i (matriz, s))
        = s\<lparr>pos := pos s + 3 * nat (sint (width header)) + nat (sint (width header)) mod 4\<rparr>"
    by (simp add: snd_leer_fila)
next
  show "w mod 4 = relleno_estandar w"
    by (rule relleno_es_estandar)
next
  show "escribir_relleno w archivo = archivo @ replicate (w mod 4) 0"
    by (rule escribir_relleno_eq)
qed

lemma cinco_negros:
  "concat (map bytes_de_Pixel [negro, negro, negro, negro, negro])
     = [0, 0, 0, 0, 0, 0, 0, 0, 0, 0, 0, 0, 0, 0, 0]"
  by (simp add: bytes_de_Pixel_def negro_def)

text \<open>A row of five pixels: 15 bytes of pixels, then one byte of padding.\<close>

theorem relleno_ancho_mod_4_witness:
  "guardarMatrizEnBMP (\<lambda>n. True) (\<lambda>n. None) ''salida.bmp'' [[negro, negro, negro, negro, negro]]
     = Inr ((\<lambda>n. None)(''salida.bmp'' \<mapsto> bytes_de_BMPHeader (cabecera_de 1 5)
              @ [0, 0, 0, 0, 0, 0, 0, 0, 0, 0, 0, 0, 0, 0, 0] @ [0]))
   \<and> snd (leer_fila (cabecera_de 1 5) 0
            ([[negro, negro, negro, negro, negro]],
             \<lparr>contenido = [1, 2, 3, 4, 5, 6, 7, 8, 9, 10, 11, 12, 13, 14, 15, 0], pos = 0,
                failbit = False\<rparr>))
     = \<lparr>contenido = [1, 2, 3, 4, 5, 6, 7, 8, 9, 10, 11, 12, 13, 14, 15, 0], pos = 16,
        failbit = False\<rparr>
   \<and> (5 :: nat) mod 4 = relleno_estandar 5
   \<and> escribir_relleno 5 [1, 2, 3] = [1, 2, 3, 0]"
proof -
  have w: "sint (width (cabecera_de h 5)) = 5" for h
    by (simp add: cabecera_de_def)
  note t = relleno_ancho_mod_4 [where m = "[[negro, negro, negro, negro, negro]]" and w = 5
      and crea = "\<lambda>n. True" and nombre = "''salida.bmp''" and fs = "\<lambda>n. None"
      and header = "cabecera_de 1 5" and i = 0 and matriz = "[[negro, negro, negro, negro, negro]]"
      and s = "\<lparr>contenido = [1, 2, 3, 4, 5, 6, 7, 8, 9, 10, 11, 12, 13, 14, 15, 0], pos = 0,
                failbit = False\<rparr>" and archivo = "[1, 2, 3]"]
  from t [THEN conjunct1] have a: "guardarMatrizEnBMP (\<lambda>n. True) (\<lambda>n. None) ''salida.bmp''
       [[negro, negro, negro, negro, negro]]
     = Inr ((\<lambda>n. None)(''salida.bmp'' \<mapsto> bytes_de_BMPHeader (cabecera_de 1 5)
              @ [0, 0, 0, 0, 0, 0, 0, 0, 0, 0, 0, 0, 0, 0, 0] @ [0]))"
    by (simp add: bytes_de_Pixel_def negro_def)
  from t [THEN conjunct2, THEN conjunct1] have b: "snd (leer_fila (cabecera_de 1 5) 0
            ([[negro, negro, negro, negro, negro]],
             \<lparr>contenido = [1, 2, 3, 4, 5, 6, 7, 8, 9, 10, 11, 12, 13, 14, 15, 0], pos = 0,
                failbit = False\<rparr>))
     = \<lparr>contenido = [1, 2, 3, 4, 5, 6, 7, 8, 9, 10, 11, 12, 13, 14, 15, 0], pos = 16,
        failbit = False\<rparr>"
    by (simp add: w)
  from t [THEN conjunct2, THEN conjunct2, THEN conjunct1]
  have c: "(5 :: nat) mod 4 = relleno_estandar 5" .
  from t [THEN conjunct2, THEN conjunct2, THEN conjunct2]
  have d: "escribir_relleno 5 [1, 2, 3] = [1, 2, 3, 0]"
    by simp
  from a b c d show ?thesis
    by (intro conjI)
qed

text \<open>
  Claim C6 as stated calls the amount non-standard, different from
  \<open>(4 - (3 * w) mod 4) mod 4\<close>. For width 5 the writer emits exactly that many zero
  bytes, one; and no width exists at which the two amounts differ.
\<close>

theorem relleno_ancho_mod_4_counterexample:
  "relleno_estandar 5 = 1
   \<and> guardarMatrizEnBMP (\<lambda>n. True) (\<lambda>n. None) ''salida.bmp''
       [[negro, negro, negro, negro, negro]]
     = Inr ((\<lambda>n. None)(''salida.bmp'' \<mapsto> bytes_de_BMPHeader (cabecera_de 1 5)
              @ concat (map bytes_de_Pixel [negro, negro, negro, negro, negro])
              @ replicate (relleno_estandar 5) 0))
   \<and> \<not> (\<exists>w. w mod 4 \<noteq> relleno_estandar w)"
proof (intro conjI)
  show e: "relleno_estandar 5 = 1"
    by (simp add: relleno_estandar_def)
  have "guardarMatrizEnBMP (\<lambda>n. True) (\<lambda>n. None) ''salida.bmp''
          [[negro, negro, negro, negro, negro]]
      = Inr ((\<lambda>n. None)(''salida.bmp'' \<mapsto>
               bytes_de_BMPHeader (cabecera_de (length [[negro, negro, negro, negro, negro]]) 5)
               @ concat (map bytes_de_fila [[negro, negro, negro, negro, negro]])))"
    by (rule guardarMatrizEnBMP_ok) simp_all
  then show "guardarMatrizEnBMP (\<lambda>n. True) (\<lambda>n. None) ''salida.bmp''
       [[negro, negro, negro, negro, negro]]
     = Inr ((\<lambda>n. None)(''salida.bmp'' \<mapsto> bytes_de_BMPHeader (cabecera_de 1 5)
              @ concat (map bytes_de_Pixel [negro, negro, negro, negro, negro])
              @ replicate (relleno_estandar 5) 0))"
    by (simp add: bytes_de_fila_def e)
  show "\<not> (\<exists>w. w mod 4 \<noteq> relleno_estandar w)"
    using relleno_es_estandar by blast
qed

section \<open>The failures of the reader\<close>

lemma leer_exit_iff:
  "leerArchivoBMP memoria fs basura nombre = Inl (Exit 1) \<longleftrightarrow>
     (fs nombre = None
      \<or> (\<exists>datos. fs nombre = Some datos
            \<and> bitsPerPixel (BMPHeader_de_bytes (fst (read sizeof_BMPHeader basura (abrir datos))))
                \<noteq> 24))"
proof (cases "fs nombre")
  case None
  then show ?thesis by (simp add: leerArchivoBMP_def)
next
  case (Some datos)
  define header where "header = BMPHeader_de_bytes (fst (read sizeof_BMPHeader basura (abrir datos)))"
  have "leerArchivoBMP memoria fs basura nombre = Inl (Exit 1) \<longleftrightarrow> bitsPerPixel header \<noteq> 24"
    by (simp add: leerArchivoBMP_casos [where fs = fs and nombre = nombre, OF Some header_def])
  with Some show ?thesis
    by (simp add: header_def)
qed

text \<open>
  Claim C7, amended. The reader ends the process with exit code 1 if and only if the file
  cannot be opened or the bits-per-pixel field of the header it read is not 24. When the
  file opens and that field is 24, there is one more failure, which is not an exit with
  code 1: the process aborts when the matrix cannot be created, because the header's
  height or width is negative or because the free store cannot provide the bytes of a
  matrix of that height and width. Otherwise no other malformation is detected: the reader
  returns a grid of height by width pixels, each the result of one read at its offset in
  the file, and a pixel whose offset is at or beyond the end of the file is zero.
\<close>

theorem leerArchivoBMP_fallos:
  "(leerArchivoBMP memoria fs basura nombre = Inl (Exit 1) \<longleftrightarrow>
      (fs nombre = None
       \<or> (\<exists>datos. fs nombre = Some datos
             \<and> bitsPerPixel (BMPHeader_de_bytes (fst (read sizeof_BMPHeader basura (abrir datos))))
                 \<noteq> 24)))
   \<and> (fs nombre = Some datos
        \<and> header = BMPHeader_de_bytes (fst (read sizeof_BMPHeader basura (abrir datos)))
        \<and> bitsPerPixel header = 24
        \<and> (sint (height header) < 0 \<or> sint (width header) < 0
             \<or> memoria < bytes_de_matriz (nat (sint (height header))) (nat (sint (width header))))
        \<longrightarrow>
      leerArchivoBMP memoria fs basura nombre = Inl Abortado)
   \<and> (fs nombre = Some datos
        \<and> header = BMPHeader_de_bytes (fst (read sizeof_BMPHeader basura (abrir datos)))
        \<and> bitsPerPixel header = 24
        \<and> 0 \<le> sint (height header) \<and> 0 \<le> sint (width header)
        \<and> bytes_de_matriz (nat (sint (height header))) (nat (sint (width header))) \<le> memoria
        \<longrightarrow>
      leerArchivoBMP memoria fs basura nombre
        = Inr (map (\<lambda>i. map (\<lambda>j. pixel_en datos
                  ((if sizeof_BMPHeader \<le> length datos \<and> 0 \<le> sint (dataOffset header)
                    then nat (sint (dataOffset header)) else length datos)
                   + i * (3 * nat (sint (width header)) + nat (sint (width header)) mod 4) + 3 * j))
                 [0..<nat (sint (width header))])
               [0..<nat (sint (height header))]))
   \<and> (length datos \<le> e \<longrightarrow> pixel_en datos e = negro)"
proof (intro conjI impI)
  show "leerArchivoBMP memoria fs basura nombre = Inl (Exit 1) \<longleftrightarrow>
      (fs nombre = None
       \<or> (\<exists>datos. fs nombre = Some datos
             \<and> bitsPerPixel (BMPHeader_de_bytes (fst (read sizeof_BMPHeader basura (abrir datos))))
                 \<noteq> 24))"
    by (rule leer_exit_iff)
next
  assume a: "fs nombre = Some datos
        \<and> header = BMPHeader_de_bytes (fst (read sizeof_BMPHeader basura (abrir datos)))
        \<and> bitsPerPixel header = 24
        \<and> (sint (height header) < 0 \<or> sint (width header) < 0
             \<or> memoria < bytes_de_matriz (nat (sint (height header))) (nat (sint (width header))))"
  then have ab: "fs nombre = Some datos"
    and hdr: "header = BMPHeader_de_bytes (fst (read sizeof_BMPHeader basura (abrir datos)))"
    and bpp: "bitsPerPixel header = 24"
    and no: "sint (height header) < 0 \<or> sint (width header) < 0
             \<or> memoria < bytes_de_matriz (nat (sint (height header))) (nat (sint (width header)))"
    by blast+
  show "leerArchivoBMP memoria fs basura nombre = Inl Abortado"
    using bpp no
    by (simp add: leerArchivoBMP_casos [where fs = fs and nombre = nombre, OF ab hdr])
next
  assume a: "fs nombre = Some datos
        \<and> header = BMPHeader_de_bytes (fst (read sizeof_BMPHeader basura (abrir datos)))
        \<and> bitsPerPixel header = 24
        \<and> 0 \<le> sint (height header) \<and> 0 \<le> sint (width header)
        \<and> bytes_de_matriz (nat (sint (height header))) (nat (sint (width header))) \<le> memoria"
  then have ab: "fs nombre = Some datos"
    and hdr: "header = BMPHeader_de_bytes (fst (read sizeof_BMPHeader basura (abrir datos)))"
    and bpp: "bitsPerPixel header = 24"
    and h: "0 \<le> sint (height header)" and w: "0 \<le> sint (width header)"
    and mem: "bytes_de_matriz (nat (sint (height header))) (nat (sint (width header))) \<le> memoria"
    by blast+
  show "leerArchivoBMP memoria fs basura nombre
        = Inr (map (\<lambda>i. map (\<lambda>j. pixel_en datos
                  ((if sizeof_BMPHeader \<le> length datos \<and> 0 \<le> sint (dataOffset header)
                    then nat (sint (dataOffset header)) else length datos)
                   + i * (3 * nat (sint (width header)) + nat (sint (width header)) mod 4) + 3 * j))
                 [0..<nat (sint (width header))])
               [0..<nat (sint (height header))])"
    by (rule leerArchivoBMP_contenido [where fs = fs and nombre = nombre,
          OF ab hdr bpp h w mem alineado_inicial])
next
  assume "length datos \<le> e"
  then show "pixel_en datos e = negro"
    by (rule pixel_en_fuera)
qed

lemma pixel_en_salta: "pixel_en (bytes_de_BMPHeader H @ cuerpo) (54 + k) = pixel_en cuerpo k"
  by (simp add: pixel_en_def read_def Let_def)

lemma cabecera_leida:
  "BMPHeader_de_bytes (fst (read sizeof_BMPHeader basura (abrir (bytes_de_BMPHeader H @ cuerpo)))) = H"
  by (simp only: read_cabecera fst_conv BMPHeader_de_bytes_de_BMPHeader)

text \<open>
  A header for a 2 by 2 image followed by four bytes only. With a free store of 1024
  bytes the first pixel is read, the second gets the one byte that is left, the others
  stay zero, and no failure is reported. With a free store of 10 bytes the matrix, which
  takes 66 bytes, cannot be created, and the process aborts.
\<close>

theorem leerArchivoBMP_fallos_witness:
  "leerArchivoBMP 1024
      ((\<lambda>n. None)(''entrada.bmp'' \<mapsto> bytes_de_BMPHeader (cabecera_de 2 2) @ [1, 2, 3, 4]))
      [] ''entrada.bmp''
     = Inr [[\<lparr>blue = 1, green = 2, red = 3\<rparr>, \<lparr>blue = 4, green = 0, red = 0\<rparr>],
            [\<lparr>blue = 0, green = 0, red = 0\<rparr>, \<lparr>blue = 0, green = 0, red = 0\<rparr>]]
   \<and> leerArchivoBMP 10
      ((\<lambda>n. None)(''entrada.bmp'' \<mapsto> bytes_de_BMPHeader (cabecera_de 2 2) @ [1, 2, 3, 4]))
      [] ''entrada.bmp''
     = Inl Abortado
   \<and> pixel_en (bytes_de_BMPHeader (cabecera_de 2 2) @ [1, 2, 3, 4]) 62 = negro"
proof -
  let ?datos = "bytes_de_BMPHeader (cabecera_de 2 2) @ [1, 2, 3, 4]"
  let ?fs = "(\<lambda>n. None)(''entrada.bmp'' \<mapsto> ?datos)"
  note t = leerArchivoBMP_fallos [where fs = ?fs and nombre = "''entrada.bmp''" and datos = ?datos
      and header = "cabecera_de 2 2" and basura = "[]" and e = 62 and memoria = 1024]
  note t' = leerArchivoBMP_fallos [where fs = ?fs and nombre = "''entrada.bmp''" and datos = ?datos
      and header = "cabecera_de 2 2" and basura = "[]" and e = 62 and memoria = 10]
  have h: "sint (height (cabecera_de 2 2)) = 2" and w: "sint (width (cabecera_de 2 2)) = 2"
    and o: "sint (dataOffset (cabecera_de 2 2)) = 54" and b: "bitsPerPixel (cabecera_de 2 2) = 24"
    by (simp_all add: cabecera_de_def sizeof_BMPHeader_def)
  have n: "bytes_de_matriz (nat 2) (nat 2) = 66"
    by (simp add: bytes_de_matriz_def sizeof_Pixel_def sizeof_vector_def)
  have p: "pixel_en [1, 2, 3, 4] 0 = \<lparr>blue = 1, green = 2, red = 3\<rparr>"
    "pixel_en [1, 2, 3, 4] 3 = \<lparr>blue = 4, green = 0, red = 0\<rparr>"
    "pixel_en [1, 2, 3, 4] 8 = \<lparr>blue = 0, green = 0, red = 0\<rparr>"
    "pixel_en [1, 2, 3, 4] 11 = \<lparr>blue = 0, green = 0, red = 0\<rparr>"
    by (simp_all add: pixel_en_def read_def Let_def sizeof_Pixel_def Pixel_de_bytes_def
        bytes_de_Pixel_def negro_def)
  have len: "sizeof_BMPHeader \<le> length ?datos"
    by (simp add: sizeof_BMPHeader_def)
  have "?fs ''entrada.bmp'' = Some ?datos
      \<and> cabecera_de 2 2 = BMPHeader_de_bytes (fst (read sizeof_BMPHeader [] (abrir ?datos)))
      \<and> bitsPerPixel (cabecera_de 2 2) = 24
      \<and> 0 \<le> sint (height (cabecera_de 2 2)) \<and> 0 \<le> sint (width (cabecera_de 2 2))
      \<and> bytes_de_matriz (nat (sint (height (cabecera_de 2 2))))
            (nat (sint (width (cabecera_de 2 2)))) \<le> 1024"
    by (simp only: cabecera_leida h w b n) simp
  from t [THEN conjunct2, THEN conjunct2, THEN conjunct1, rule_format, OF this]
  have "leerArchivoBMP 1024 ?fs [] ''entrada.bmp''
      = Inr (map (\<lambda>i. map (\<lambda>j. pixel_en ?datos (54 + i * 8 + 3 * j)) [0..<2]) [0..<2])"
    by (simp add: h w o sizeof_BMPHeader_def)
  also have "map (\<lambda>i. map (\<lambda>j. pixel_en ?datos (54 + i * 8 + 3 * j)) [0..<2]) [0..<2]
      = [[\<lparr>blue = 1, green = 2, red = 3\<rparr>, \<lparr>blue = 4, green = 0, red = 0\<rparr>],
         [\<lparr>blue = 0, green = 0, red = 0\<rparr>, \<lparr>blue = 0, green = 0, red = 0\<rparr>]]"
  proof -
    have u: "[0..<2] = [0, Suc 0]"
      by (simp add: numeral_2_eq_2)
    have q: "pixel_en ?datos 54 = pixel_en [1, 2, 3, 4] 0"
      "pixel_en ?datos 57 = pixel_en [1, 2, 3, 4] 3"
      "pixel_en ?datos 62 = pixel_en [1, 2, 3, 4] 8"
      "pixel_en ?datos 65 = pixel_en [1, 2, 3, 4] 11"
      using pixel_en_salta [of "cabecera_de 2 2" "[1, 2, 3, 4]" 0]
        pixel_en_salta [of "cabecera_de 2 2" "[1, 2, 3, 4]" 3]
        pixel_en_salta [of "cabecera_de 2 2" "[1, 2, 3, 4]" 8]
        pixel_en_salta [of "cabecera_de 2 2" "[1, 2, 3, 4]" 11]
      by simp_all
    show ?thesis
      by (simp add: u q p)
  qed
  finally have a: "leerArchivoBMP 1024 ?fs [] ''entrada.bmp''
     = Inr [[\<lparr>blue = 1, green = 2, red = 3\<rparr>, \<lparr>blue = 4, green = 0, red = 0\<rparr>],
            [\<lparr>blue = 0, green = 0, red = 0\<rparr>, \<lparr>blue = 0, green = 0, red = 0\<rparr>]]" .
  have "?fs ''entrada.bmp'' = Some ?datos
      \<and> cabecera_de 2 2 = BMPHeader_de_bytes (fst (read sizeof_BMPHeader [] (abrir ?datos)))
      \<and> bitsPerPixel (cabecera_de 2 2) = 24
      \<and> (sint (height (cabecera_de 2 2)) < 0 \<or> sint (width (cabecera_de 2 2)) < 0
           \<or> 10 < bytes_de_matriz (nat (sint (height (cabecera_de 2 2))))
                     (nat (sint (width (cabecera_de 2 2)))))"
    by (simp only: cabecera_leida h w b n) simp
  from t' [THEN conjunct2, THEN conjunct1, rule_format, OF this]
  have d: "leerArchivoBMP 10 ?fs [] ''entrada.bmp'' = Inl Abortado" .
  have c: "pixel_en ?datos 62 = negro"
    using t [THEN conjunct2, THEN conjunct2, THEN conjunct2] by simp
  from a d c show ?thesis
    by (intro conjI)
qed

text \<open>
  Claim C7 as stated, that any other malformation yields pixel content instead of a
  failure, fails for a file that opens, has 24 bits per pixel and a height of -1: the
  reader returns no grid, however large the free store is (the construction of the
  vector throws \<^verbatim>\<open>std::length_error\<close>). It fails as well for a file of 54 bytes whose
  header declares \<open>2147483647\<close> rows of \<open>2147483647\<close> pixels, on a machine whose free
  store has \<open>2 ^ 40\<close> bytes: the reader returns no grid there either (\<^verbatim>\<open>std::bad_alloc\<close>).
\<close>

theorem leerArchivoBMP_fallos_counterexample:
  "((\<lambda>n. None)(''entrada.bmp'' \<mapsto> bytes_de_BMPHeader ((cabecera_de 1 1)\<lparr>height := - 1\<rparr>) @ [1, 2, 3, 0]))
      ''entrada.bmp'' \<noteq> None
   \<and> bitsPerPixel (BMPHeader_de_bytes (fst (read sizeof_BMPHeader []
         (abrir (bytes_de_BMPHeader ((cabecera_de 1 1)\<lparr>height := - 1\<rparr>) @ [1, 2, 3, 0])))))
       = 24
   \<and> \<not> (\<exists>memoria m. leerArchivoBMP memoria
              ((\<lambda>n. None)(''entrada.bmp'' \<mapsto>
                 bytes_de_BMPHeader ((cabecera_de 1 1)\<lparr>height := - 1\<rparr>) @ [1, 2, 3, 0]))
              [] ''entrada.bmp'' = Inr m)
   \<and> bitsPerPixel (BMPHeader_de_bytes (fst (read sizeof_BMPHeader []
         (abrir (bytes_de_BMPHeader (cabecera_de 2147483647 2147483647))))))
       = 24
   \<and> leerArchivoBMP (2 ^ 40)
        ((\<lambda>n. None)(''entrada.bmp'' \<mapsto> bytes_de_BMPHeader (cabecera_de 2147483647 2147483647)))
        [] ''entrada.bmp'' = Inl Abortado"
proof -
  let ?H = "(cabecera_de 1 1)\<lparr>height := - 1\<rparr>"
  let ?fs = "(\<lambda>n. None)(''entrada.bmp'' \<mapsto> bytes_de_BMPHeader ?H @ [1, 2, 3, 0])"
  let ?G = "cabecera_de 2147483647 2147483647"
  let ?gs = "(\<lambda>n. None)(''entrada.bmp'' \<mapsto> bytes_de_BMPHeader ?G)"
  have b: "bitsPerPixel ?H = 24"
    by (simp add: cabecera_de_def)
  have "leerArchivoBMP memoria ?fs [] ''entrada.bmp'' = Inl Abortado" for memoria
    using b by (intro leer_aborta [where H = ?H and cuerpo = "[1, 2, 3, 0]"]) simp_all
  then have 1: "\<not> (\<exists>memoria m. leerArchivoBMP memoria ?fs [] ''entrada.bmp'' = Inr m)"
    by simp
  have g: "bitsPerPixel ?G = 24"
    by (simp add: cabecera_de_def)
  have "sint (word_of_nat 2147483647 :: 32 word) = int 2147483647"
    by (rule sint_word_of_nat) simp
  then have s: "sint (height ?G) = 2147483647" "sint (width ?G) = 2147483647"
    by (simp_all add: cabecera_de_def)
  have "(2 :: nat) ^ 40 < bytes_de_matriz (nat (sint (height ?G))) (nat (sint (width ?G)))"
    by (simp add: s bytes_de_matriz_def sizeof_Pixel_def sizeof_vector_def)
  then have 2: "leerArchivoBMP (2 ^ 40) ?gs [] ''entrada.bmp'' = Inl Abortado"
    using g by (intro leer_aborta [where H = ?G and cuerpo = "[]"]) simp_all
  have 3: "BMPHeader_de_bytes (fst (read sizeof_BMPHeader [] (abrir (bytes_de_BMPHeader ?G)))) = ?G"
    using cabecera_leida [of "[]" ?G "[]"] by simp
  show ?thesis
    using 1 2 g b by (simp add: cabecera_leida 3)
qed

section \<open>The indices of the writer\<close>

lemma indices_en_rango:
  assumes filas: "\<forall>fila\<in>set m. length fila = w"
  shows "\<forall>i<length m. \<forall>j<w. indice m i \<noteq> None \<and> indice (m ! i) j \<noteq> None"
proof (intro allI impI)
  fix i j
  assume i: "i < length m" and j: "j < w"
  from i have "m ! i \<in> set m" by (rule nth_mem)
  with filas have "length (m ! i) = w" by (rule bspec)
  with i j show "indice m i \<noteq> None \<and> indice (m ! i) j \<noteq> None"
    by (simp add: indice_def)
qed

lemma escribir_filas_sin_fuera:
  "\<forall>i\<in>set is. i < length m \<and> length (m ! i) = ancho \<Longrightarrow>
   escribir_filas m ancho is out \<noteq> Inl FueraDeRango"
proof (induction "is" arbitrary: out)
  case Nil
  then show ?case by simp
next
  case (Cons i "is")
  then have i: "i < length m" and w: "length (m ! i) = ancho"
    by simp_all
  have "escribir_pixeles m i [0..<ancho] out = Inr (out @ concat (map bytes_de_Pixel (m ! i)))"
    using escribir_pixeles_fila [OF i] w by simp
  with Cons show ?case
    by simp
qed

lemma filas_por_indice:
  assumes filas: "\<forall>fila\<in>set m. length fila = w"
  shows "\<forall>i\<in>set [0..<length m]. i < length m \<and> length (m ! i) = w"
proof
  fix i
  assume "i \<in> set [0..<length m]"
  then have i: "i < length m" by simp
  then have "m ! i \<in> set m" by (rule nth_mem)
  with filas have "length (m ! i) = w" by (rule bspec)
  with i show "i < length m \<and> length (m ! i) = w" by (rule conjI)
qed

lemma guardarMatrizEnBMP_sin_fuera:
  assumes ne: "m \<noteq> []" and filas: "\<forall>fila\<in>set m. length fila = w"
  shows "guardarMatrizEnBMP crea fs nombre m \<noteq> Inl FueraDeRango"
proof (cases "crea nombre")
  case False
  then show ?thesis
    by (simp add: guardarMatrizEnBMP_def)
next
  case True
  from ne have i0: "indice m 0 = Some (m ! 0)"
    by (simp add: indice_def)
  from ne have "m ! 0 \<in> set m" by simp
  with filas have w0: "length (m ! 0) = w" by (rule bspec)
  have "escribir_filas m w [0..<length m] (bytes_de_BMPHeader (cabecera_de (length m) w))
      \<noteq> Inl FueraDeRango"
    using filas_por_indice [OF filas] by (rule escribir_filas_sin_fuera)
  then show ?thesis
    using True by (auto simp: guardarMatrizEnBMP_def i0 w0 split: sum.splits)
qed

text \<open>
  Claim C10. The writer reads row 0 of the grid for the width, whatever the grid. For a
  grid with at least one row and all rows of the same length, every row and pixel index
  the writer uses is within bounds (\<open>indice\<close> never returns \<open>None\<close>, and the writer never
  ends in \<open>FueraDeRango\<close>); for the empty grid the access to row 0 is out of bounds.
\<close>

theorem guardarMatrizEnBMP_indices:
  "(m \<noteq> [] \<and> (\<forall>fila\<in>set m. length fila = w) \<longrightarrow>
      indice m 0 \<noteq> None
      \<and> (\<forall>i<length m. \<forall>j<w. indice m i \<noteq> None \<and> indice (m ! i) j \<noteq> None)
      \<and> escribir_filas m w [0..<length m] cab \<noteq> Inl FueraDeRango
      \<and> guardarMatrizEnBMP crea fs nombre m \<noteq> Inl FueraDeRango)
   \<and> indice ([] :: matriz) 0 = None
   \<and> (crea nombre \<longrightarrow> guardarMatrizEnBMP crea fs nombre [] = Inl FueraDeRango)"
proof (intro conjI impI)
  assume a: "m \<noteq> [] \<and> (\<forall>fila\<in>set m. length fila = w)"
  then have ne: "m \<noteq> []" and filas: "\<forall>fila\<in>set m. length fila = w"
    by simp_all
  from ne show "indice m 0 \<noteq> None"
    by (simp add: indice_def)
  from filas show "\<forall>i<length m. \<forall>j<w. indice m i \<noteq> None \<and> indice (m ! i) j \<noteq> None"
    by (rule indices_en_rango)
  show "escribir_filas m w [0..<length m] cab \<noteq> Inl FueraDeRango"
    using filas_por_indice [OF filas] by (rule escribir_filas_sin_fuera)
  show "guardarMatrizEnBMP crea fs nombre m \<noteq> Inl FueraDeRango"
    using ne filas by (rule guardarMatrizEnBMP_sin_fuera)
next
  show "indice ([] :: matriz) 0 = None"
    by (simp add: indice_def)
next
  assume "crea nombre"
  then show "guardarMatrizEnBMP crea fs nombre [] = Inl FueraDeRango"
    by (simp add: guardarMatrizEnBMP_def indice_def)
qed

text \<open>A grid of two rows of two pixels, and the empty grid.\<close>

theorem guardarMatrizEnBMP_indices_witness:
  "indice [[negro, negro], [negro, negro]] 0 \<noteq> None
   \<and> indice ([[negro, negro], [negro, negro]] ! 1) 1 \<noteq> None
   \<and> escribir_filas [[negro, negro], [negro, negro]] 2 [0..<2] [] \<noteq> Inl FueraDeRango
   \<and> guardarMatrizEnBMP (\<lambda>n. True) (\<lambda>n. None) ''salida.bmp'' [[negro, negro], [negro, negro]]
       \<noteq> Inl FueraDeRango
   \<and> guardarMatrizEnBMP (\<lambda>n. True) (\<lambda>n. None) ''salida.bmp'' [] = Inl FueraDeRango"
proof -
  note t = guardarMatrizEnBMP_indices [where m = "[[negro, negro], [negro, negro]]" and w = 2
      and cab = "[]" and crea = "\<lambda>n. True" and fs = "\<lambda>n. None" and nombre = "''salida.bmp''"]
  have p: "[[negro, negro], [negro, negro]] \<noteq> []
      \<and> (\<forall>fila\<in>set [[negro, negro], [negro, negro]]. length fila = 2)"
    by simp
  note t1 = t [THEN conjunct1, rule_format, OF p]
  have a: "indice [[negro, negro], [negro, negro]] 0 \<noteq> None"
    by (rule t1 [THEN conjunct1])
  have "indice [[negro, negro], [negro, negro]] 1 \<noteq> None
      \<and> indice ([[negro, negro], [negro, negro]] ! 1) 1 \<noteq> None"
    by (rule t1 [THEN conjunct2, THEN conjunct1, rule_format]) simp_all
  then have b: "indice ([[negro, negro], [negro, negro]] ! 1) 1 \<noteq> None"
    by (rule conjunct2)
  have l: "length [[negro, negro], [negro, negro]] = 2"
    by simp
  have c: "escribir_filas [[negro, negro], [negro, negro]] 2 [0..<2] [] \<noteq> Inl FueraDeRango"
    using t1 [THEN conjunct2, THEN conjunct2, THEN conjunct1] unfolding l .
  have d: "guardarMatrizEnBMP (\<lambda>n. True) (\<lambda>n. None) ''salida.bmp'' [[negro, negro], [negro, negro]]
       \<noteq> Inl FueraDeRango"
    by (rule t1 [THEN conjunct2, THEN conjunct2, THEN conjunct2])
  have e: "guardarMatrizEnBMP (\<lambda>n. True) (\<lambda>n. None) ''salida.bmp'' [] = Inl FueraDeRango"
    by (rule t [THEN conjunct2, THEN conjunct2, rule_format]) simp
  from a b c d e show ?thesis
    by (intro conjI)
qed

section \<open>The three programs\<close>

text \<open>
  \<^verbatim>\<open>umbralizar(matriz[i][j], umbral);\<close>, the body of the loops that threshold the image.
  The loops run over the rows and the pixels of a matrix that \<^verbatim>\<open>leerArchivoBMP\<close>
  returned: its rows all have the length of row 0, so the indices are in range, and its
  height and width are below \<open>2 ^ 31\<close>, so the \<^verbatim>\<open>int\<close> counters do not overflow.
\<close>

definition umbralizar_en :: "nat \<Rightarrow> nat \<Rightarrow> byte \<Rightarrow> matriz \<Rightarrow> matriz" where
  "umbralizar_en i j umbral matriz =
     matriz[i := (matriz ! i)[j := umbralizar (matriz ! i ! j) umbral]]"

text \<open>
  \<^verbatim>\<open>for (int j = 0; j < matriz[0].size(); ++j) { umbralizar(matriz[i][j], umbral); }\<close>

  The loop changes pixels only, so \<^verbatim>\<open>matriz[0].size()\<close> has the same value at every test.
\<close>

definition umbralizar_fila :: "nat \<Rightarrow> byte \<Rightarrow> matriz \<Rightarrow> matriz" where
  "umbralizar_fila i umbral matriz =
     fold (\<lambda>j m. umbralizar_en i j umbral m) [0..<length (matriz ! 0)] matriz"

text \<open>
  \<^verbatim>\<open>void umbralizarMatriz(vector<vector<Pixel>>& matriz, unsigned char umbral, int inicio, int fin)\<close>:
  \<^verbatim>\<open>for (int i = inicio; i < fin; ++i) { ... }\<close>. The parameters \<^verbatim>\<open>inicio\<close> and \<^verbatim>\<open>fin\<close>
  are \<open>desde\<close> and \<open>hasta\<close> here.
\<close>

definition umbralizarMatriz :: "matriz \<Rightarrow> byte \<Rightarrow> nat \<Rightarrow> nat \<Rightarrow> matriz" where
  "umbralizarMatriz matriz umbral desde hasta =
     fold (\<lambda>i m. umbralizar_fila i umbral m) [desde..<hasta] matriz"

text \<open>
  \<^verbatim>\<open>main\<close> of \<^verbatim>\<open>2_hilos\<close>, called with three arguments: the input path, the output path
  and the threshold, already converted to \<^verbatim>\<open>unsigned char\<close>. \<open>numHilos\<close> is the value of
  \<^verbatim>\<open>thread::hardware_concurrency()\<close>; when it is 0 the program divides by zero.
  \<open>memoria\<close> is the free store that the reader finds.

  Thread \<open>i\<close> runs \<^verbatim>\<open>umbralizarMatriz\<close> on the shared matrix for its rows, and \<^verbatim>\<open>main\<close>
  joins all threads before it writes. The threads write disjoint rows
  (\<open>rangos_disjuntos\<close>) and read nothing that another thread writes, so every
  interleaving gives the matrix that running them one after the other gives.
\<close>

definition main_hilos ::
  "nat \<Rightarrow> nat \<Rightarrow> (string \<Rightarrow> bool) \<Rightarrow> archivos \<Rightarrow> byte list \<Rightarrow> string \<Rightarrow> string \<Rightarrow> byte
     \<Rightarrow> error + archivos" where
  "main_hilos memoria numHilos crea fs basura nombreArchivoLecturaBMP nombreArchivoEscrituraBMP umbral =
     (case leerArchivoBMP memoria fs basura nombreArchivoLecturaBMP of
        Inl e \<Rightarrow> Inl e
      | Inr matriz \<Rightarrow>
          if numHilos = 0 then Inl DivisionPorCero
          else
            guardarMatrizEnBMP crea fs nombreArchivoEscrituraBMP
              (fold (\<lambda>i m. umbralizarMatriz m umbral (inicio (length matriz) numHilos i)
                               (fin (length matriz) numHilos i))
                 [0..<numHilos] matriz))"

text \<open>
  \<^verbatim>\<open>main\<close> of \<^verbatim>\<open>3_procesos\<close>. After \<^verbatim>\<open>fork()\<close>, child \<open>i\<close> has its own copy of the
  matrix that the parent read; it thresholds the rows of its block in that copy:

  \<^verbatim>\<open>for (int j = inicio; j < fin; ++j) { for (int k = 0; k < matriz[0].size(); ++k) {\<close>
  \<^verbatim>\<open>umbralizar(matriz[j][k], umbral); } }\<close>
\<close>

definition hijo :: "nat \<Rightarrow> nat \<Rightarrow> byte \<Rightarrow> matriz \<Rightarrow> matriz" where
  "hijo numProcesos i umbral matriz =
     fold (\<lambda>j m. fold (\<lambda>k m'. umbralizar_en j k umbral m') [0..<length (m ! 0)] m)
       [inicio (length matriz) numProcesos i..<fin (length matriz) numProcesos i] matriz"

text \<open>
  Then the child writes its whole matrix to the output path,
  \<^verbatim>\<open>guardarMatrizEnBMP(nombreArchivoEscrituraBMP, matriz); exit(0);\<close>, and the parent
  only waits for the children and returns 0. \<open>numProcesos\<close> is the value of
  \<^verbatim>\<open>sysconf(_SC_NPROCESSORS_ONLN)\<close>, and \<^verbatim>\<open>fork()\<close> is taken to succeed. The children
  run at the same time: \<open>orden\<close> is the order in which they write the output file, each
  write replacing the file.

  A child that cannot create the file exits with code 1 and leaves the files as they
  were. In a child that can, the constructor of the \<^verbatim>\<open>ofstream\<close> has created the file, or
  emptied it, before anything else; when the writer then does not reach its end, the
  file stays empty. This happens to the matrix without rows only (\<open>hijo_escribe\<close>
  below): there \<^verbatim>\<open>matriz[0]\<close> fails when the header is computed, before the first
  \<^verbatim>\<open>write\<close>.
\<close>

definition main_procesos ::
  "nat \<Rightarrow> nat \<Rightarrow> nat list \<Rightarrow> (string \<Rightarrow> bool) \<Rightarrow> archivos \<Rightarrow> byte list \<Rightarrow> string \<Rightarrow> string \<Rightarrow> byte
     \<Rightarrow> error + archivos" where
  "main_procesos memoria numProcesos orden crea fs basura nombreArchivoLecturaBMP
       nombreArchivoEscrituraBMP umbral =
     (case leerArchivoBMP memoria fs basura nombreArchivoLecturaBMP of
        Inl e \<Rightarrow> Inl e
      | Inr matriz \<Rightarrow>
          if numProcesos = 0 then Inl DivisionPorCero
          else
            Inr (fold (\<lambda>i fs'.
                         case guardarMatrizEnBMP crea fs' nombreArchivoEscrituraBMP
                                (hijo numProcesos i umbral matriz) of
                           Inl e \<Rightarrow>
                             if crea nombreArchivoEscrituraBMP
                             then fs'(nombreArchivoEscrituraBMP \<mapsto> []) else fs'
                         | Inr fs'' \<Rightarrow> fs'')
                   orden fs))"

text \<open>
  \<^verbatim>\<open>main\<close> of \<^verbatim>\<open>4_openMP\<close>:

  \<^verbatim>\<open>#pragma omp parallel for collapse(2)\<close>
  \<^verbatim>\<open>for (int i = 0; i < matriz.size(); ++i) { for (int j = 0; j < matriz[0].size(); ++j) {\<close>
  \<^verbatim>\<open>umbralizar(matriz[i][j], umbral); } }\<close>

  Each iteration reads and writes its own pixel only, so the result does not depend on
  which thread runs which iteration, nor on their order.
\<close>

definition main_openMP ::
  "nat \<Rightarrow> (string \<Rightarrow> bool) \<Rightarrow> archivos \<Rightarrow> byte list \<Rightarrow> string \<Rightarrow> string \<Rightarrow> byte
     \<Rightarrow> error + archivos" where
  "main_openMP memoria crea fs basura nombreArchivoLecturaBMP nombreArchivoEscrituraBMP umbral =
     (case leerArchivoBMP memoria fs basura nombreArchivoLecturaBMP of
        Inl e \<Rightarrow> Inl e
      | Inr matriz \<Rightarrow>
          guardarMatrizEnBMP crea fs nombreArchivoEscrituraBMP
            (fold (\<lambda>i m. fold (\<lambda>j m'. umbralizar_en i j umbral m') [0..<length (m ! 0)] m)
               [0..<length matriz] matriz))"

text \<open>
  The matrix in which the kernel was applied to every pixel of the rows \<open>i\<close> with
  \<open>P i\<close>, and the other rows are as in \<open>m\<close>.
\<close>

definition umbralizar_filas :: "byte \<Rightarrow> (nat \<Rightarrow> bool) \<Rightarrow> matriz \<Rightarrow> matriz" where
  "umbralizar_filas t P m =
     map (\<lambda>i. if P i then map (\<lambda>p. umbralizar p t) (m ! i) else m ! i) [0..<length m]"

text \<open>
  An image of two rows of one pixel, dark grey (10, 10, 10) above light grey
  (200, 200, 200), and the files of a machine that holds it as \<^verbatim>\<open>entrada.bmp\<close>: the
  header, then each row with its byte of padding.
\<close>

definition imagen_ejemplo :: matriz where
  "imagen_ejemplo = [[\<lparr>blue = 10, green = 10, red = 10\<rparr>], [\<lparr>blue = 200, green = 200, red = 200\<rparr>]]"

definition archivos_ejemplo :: archivos where
  "archivos_ejemplo =
     (\<lambda>n. None)(''entrada.bmp'' \<mapsto>
        bytes_de_BMPHeader (cabecera_de 2 1) @ [10, 10, 10, 0, 200, 200, 200, 0])"

section \<open>The three programs compared\<close>

lemma umbralizar_pixeles_fold:
  assumes i: "i < length m"
  shows "n \<le> length (m ! i) \<Longrightarrow>
         fold (\<lambda>j m'. umbralizar_en i j t m') [0..<n] m
           = m[i := map (\<lambda>p. umbralizar p t) (take n (m ! i)) @ drop n (m ! i)]"
proof (induction n)
  case 0
  then show ?case by simp
next
  case (Suc n)
  let ?pre = "map (\<lambda>p. umbralizar p t) (take n (m ! i))"
  let ?mn = "m[i := ?pre @ drop n (m ! i)]"
  from Suc.prems have n: "n < length (m ! i)" by simp
  have fila: "?mn ! i = ?pre @ drop n (m ! i)"
    using i by simp
  have pn: "(?pre @ drop n (m ! i)) ! n = m ! i ! n"
    using n by (simp add: nth_append)
  have "(?pre @ drop n (m ! i))[n := umbralizar (m ! i ! n) t]
      = ?pre @ umbralizar (m ! i ! n) t # drop (Suc n) (m ! i)"
    using n by (simp add: list_update_append Cons_nth_drop_Suc [symmetric])
  also have "\<dots> = map (\<lambda>p. umbralizar p t) (take (Suc n) (m ! i)) @ drop (Suc n) (m ! i)"
    using n by (simp add: take_Suc_conv_app_nth)
  finally have "umbralizar_en i n t ?mn
      = m[i := map (\<lambda>p. umbralizar p t) (take (Suc n) (m ! i)) @ drop (Suc n) (m ! i)]"
    by (simp add: umbralizar_en_def fila pn)
  with Suc show ?case
    by simp
qed

lemma umbralizar_fila_eq:
  assumes "i < length m" and "length (m ! 0) = length (m ! i)"
  shows "umbralizar_fila i t m = m[i := map (\<lambda>p. umbralizar p t) (m ! i)]"
  using umbralizar_pixeles_fold [OF assms(1), of "length (m ! i)" t] assms(2)
  by (simp add: umbralizar_fila_def)

lemma length_umbralizar_filas [simp]: "length (umbralizar_filas t P m) = length m"
  by (simp add: umbralizar_filas_def)

lemma nth_umbralizar_filas:
  "i < length m \<Longrightarrow>
   umbralizar_filas t P m ! i = (if P i then map (\<lambda>p. umbralizar p t) (m ! i) else m ! i)"
  by (simp add: umbralizar_filas_def)

lemma umbralizar_filas_nada: "umbralizar_filas t (\<lambda>i. False) m = m"
  by (simp add: umbralizar_filas_def map_nth)

lemma umbralizar_filas_todas: "umbralizar_filas t (\<lambda>i. i < length m) m = map (map (\<lambda>p. umbralizar p t)) m"
  by (rule nth_equalityI) (simp_all add: nth_umbralizar_filas)

lemma filas_umbralizar_filas:
  assumes "\<forall>fila\<in>set m. length fila = w"
  shows "\<forall>fila\<in>set (umbralizar_filas t P m). length fila = w"
proof
  fix fila
  assume "fila \<in> set (umbralizar_filas t P m)"
  then obtain i where i: "i < length m" and f: "fila = umbralizar_filas t P m ! i"
    by (auto simp: in_set_conv_nth)
  from i have "m ! i \<in> set m" by (rule nth_mem)
  with assms have "length (m ! i) = w" by (rule bspec)
  with i f show "length fila = w"
    by (simp add: nth_umbralizar_filas)
qed

lemma umbralizar_fila_paso:
  assumes filas: "\<forall>fila\<in>set m. length fila = w" and b: "b < length m" and nP: "\<not> P b"
  shows "umbralizar_fila b t (umbralizar_filas t P m) = umbralizar_filas t (\<lambda>i. P i \<or> i = b) m"
proof -
  let ?M = "umbralizar_filas t P m"
  have fM: "\<forall>fila\<in>set ?M. length fila = w"
    using filas by (rule filas_umbralizar_filas)
  have lb: "b < length ?M"
    using b by simp
  then have l0: "0 < length ?M"
    by (rule le_less_trans [rotated]) simp
  from lb have "?M ! b \<in> set ?M" by (rule nth_mem)
  with fM have wb: "length (?M ! b) = w" by (rule bspec)
  from l0 have "?M ! 0 \<in> set ?M" by (rule nth_mem)
  with fM have w0: "length (?M ! 0) = w" by (rule bspec)
  have "umbralizar_fila b t ?M = ?M[b := map (\<lambda>p. umbralizar p t) (?M ! b)]"
    using lb by (rule umbralizar_fila_eq) (simp add: wb w0)
  also have "\<dots> = umbralizar_filas t (\<lambda>i. P i \<or> i = b) m"
  proof (rule nth_equalityI)
    show "length (?M[b := map (\<lambda>p. umbralizar p t) (?M ! b)])
        = length (umbralizar_filas t (\<lambda>i. P i \<or> i = b) m)"
      by simp
  next
    fix i
    assume "i < length (?M[b := map (\<lambda>p. umbralizar p t) (?M ! b)])"
    then have i: "i < length m" by simp
    show "?M[b := map (\<lambda>p. umbralizar p t) (?M ! b)] ! i
        = umbralizar_filas t (\<lambda>i. P i \<or> i = b) m ! i"
      using i b nP by (cases "i = b") (simp_all add: nth_umbralizar_filas)
  qed
  finally show ?thesis .
qed

lemma umbralizar_rango:
  assumes filas: "\<forall>fila\<in>set m. length fila = w" and ab: "a \<le> b" and b: "b \<le> length m"
    and nP: "\<forall>i. a \<le> i \<and> i < b \<longrightarrow> \<not> P i"
  shows "fold (\<lambda>i m'. umbralizar_fila i t m') [a..<b] (umbralizar_filas t P m)
       = umbralizar_filas t (\<lambda>i. P i \<or> (a \<le> i \<and> i < b)) m"
  using ab b nP
proof (induction b rule: dec_induct)
  case base
  have "(\<lambda>i. P i \<or> (a \<le> i \<and> i < a)) = P"
    by auto
  then show ?case by simp
next
  case (step n)
  have Q: "\<not> (P n \<or> (a \<le> n \<and> n < n))"
    using step by simp
  have n: "n < length m"
    using step.prems by simp
  have "fold (\<lambda>i m'. umbralizar_fila i t m') [a..<Suc n] (umbralizar_filas t P m)
      = umbralizar_fila n t (umbralizar_filas t (\<lambda>i. P i \<or> (a \<le> i \<and> i < n)) m)"
    using step by simp
  also have "\<dots> = umbralizar_filas t (\<lambda>i. (P i \<or> (a \<le> i \<and> i < n)) \<or> i = n) m"
    using filas n Q by (rule umbralizar_fila_paso)
  also have "(\<lambda>i. (P i \<or> (a \<le> i \<and> i < n)) \<or> i = n) = (\<lambda>i. P i \<or> (a \<le> i \<and> i < Suc n))"
    using step.hyps by auto
  finally show ?case .
qed

lemma umbralizarMatriz_rango:
  assumes "\<forall>fila\<in>set m. length fila = w" and "a \<le> b" and "b \<le> length m"
    and "\<forall>i. a \<le> i \<and> i < b \<longrightarrow> \<not> P i"
  shows "umbralizarMatriz (umbralizar_filas t P m) t a b
       = umbralizar_filas t (\<lambda>i. P i \<or> (a \<le> i \<and> i < b)) m"
  unfolding umbralizarMatriz_def using assms by (rule umbralizar_rango)

lemma umbralizar_filas_cong:
  "(\<And>i. i < length m \<Longrightarrow> P i = Q i) \<Longrightarrow> umbralizar_filas t P m = umbralizar_filas t Q m"
  by (simp add: umbralizar_filas_def)

lemma umbralizarMatriz_desde_cero:
  assumes filas: "\<forall>fila\<in>set m. length fila = w" and ab: "a \<le> b" and b: "b \<le> length m"
  shows "umbralizarMatriz m t a b = umbralizar_filas t (\<lambda>i. a \<le> i \<and> i < b) m"
proof -
  have "umbralizarMatriz (umbralizar_filas t (\<lambda>i. False) m) t a b
      = umbralizar_filas t (\<lambda>i. False \<or> (a \<le> i \<and> i < b)) m"
    using filas ab b by (rule umbralizarMatriz_rango) simp
  then show ?thesis
    by (simp add: umbralizar_filas_nada)
qed

lemma hilos_fold:
  assumes filas: "\<forall>fila\<in>set m. length fila = w" and W: "1 \<le> W"
  shows "k < W \<Longrightarrow>
         fold (\<lambda>i m'. umbralizarMatriz m' t (inicio (length m) W i) (fin (length m) W i))
           [0..<Suc k] m
         = umbralizar_filas t (\<lambda>i. i < fin (length m) W k) m"
proof (induction k)
  case 0
  have i0: "inicio (length m) W 0 = 0"
    by (simp add: inicio_def)
  have "umbralizarMatriz m t 0 (fin (length m) W 0)
      = umbralizar_filas t (\<lambda>i. 0 \<le> i \<and> i < fin (length m) W 0) m"
    using filas _ fin_le [OF W 0] by (rule umbralizarMatriz_desde_cero) simp
  then show ?case
    by (simp add: i0)
next
  case (Suc k)
  then have k: "k < W" and sk: "Suc k < W"
    by simp_all
  have e: "inicio (length m) W (Suc k) = fin (length m) W k"
    using sk by (rule fin_eq_inicio_Suc [symmetric])
  have le: "fin (length m) W k \<le> fin (length m) W (Suc k)"
    using inicio_le_fin [OF W sk, of "length m"] by (simp add: e)
  have "fold (\<lambda>i m'. umbralizarMatriz m' t (inicio (length m) W i) (fin (length m) W i))
          [0..<Suc (Suc k)] m
      = umbralizarMatriz (umbralizar_filas t (\<lambda>i. i < fin (length m) W k) m) t
          (fin (length m) W k) (fin (length m) W (Suc k))"
    using Suc.IH [OF k] by (simp add: e)
  also have "\<dots> = umbralizar_filas t
      (\<lambda>i. i < fin (length m) W k \<or> (fin (length m) W k \<le> i \<and> i < fin (length m) W (Suc k))) m"
    using filas le fin_le [OF W sk] by (rule umbralizarMatriz_rango) simp
  also have "\<dots> = umbralizar_filas t (\<lambda>i. i < fin (length m) W (Suc k)) m"
    using le by (intro umbralizar_filas_cong) auto
  finally show ?case .
qed

lemma hilos_todos:
  assumes filas: "\<forall>fila\<in>set m. length fila = w" and W: "1 \<le> W"
  shows "fold (\<lambda>i m'. umbralizarMatriz m' t (inicio (length m) W i) (fin (length m) W i))
           [0..<W] m
       = map (map (\<lambda>p. umbralizar p t)) m"
proof -
  from W have s: "Suc (W - 1) = W" and l: "W - 1 < W"
    by simp_all
  have "fold (\<lambda>i m'. umbralizarMatriz m' t (inicio (length m) W i) (fin (length m) W i))
           [0..<Suc (W - 1)] m
       = umbralizar_filas t (\<lambda>i. i < fin (length m) W (W - 1)) m"
    using filas W l by (rule hilos_fold)
  then show ?thesis
    by (simp only: s fin_ultimo [OF W] umbralizar_filas_todas)
qed

lemma openMP_todos:
  assumes filas: "\<forall>fila\<in>set m. length fila = w"
  shows "fold (\<lambda>i m'. fold (\<lambda>j m''. umbralizar_en i j t m'') [0..<length (m' ! 0)] m')
           [0..<length m] m
       = map (map (\<lambda>p. umbralizar p t)) m"
proof -
  have "fold (\<lambda>i m'. fold (\<lambda>j m''. umbralizar_en i j t m'') [0..<length (m' ! 0)] m')
           [0..<length m] m
      = umbralizarMatriz m t 0 (length m)"
    by (simp add: umbralizarMatriz_def umbralizar_fila_def)
  also have "\<dots> = umbralizar_filas t (\<lambda>i. 0 \<le> i \<and> i < length m) m"
    using filas by (rule umbralizarMatriz_desde_cero) simp_all
  also have "\<dots> = map (map (\<lambda>p. umbralizar p t)) m"
    by (simp add: umbralizar_filas_todas)
  finally show ?thesis .
qed

lemma hijo_eq:
  assumes filas: "\<forall>fila\<in>set m. length fila = w" and W: "1 \<le> W" and i: "i < W"
  shows "hijo W i t m
       = umbralizar_filas t (\<lambda>r. inicio (length m) W i \<le> r \<and> r < fin (length m) W i) m"
proof -
  have "hijo W i t m = umbralizarMatriz m t (inicio (length m) W i) (fin (length m) W i)"
    by (simp add: hijo_def umbralizarMatriz_def umbralizar_fila_def)
  also have "\<dots> = umbralizar_filas t
      (\<lambda>r. inicio (length m) W i \<le> r \<and> r < fin (length m) W i) m"
    using filas inicio_le_fin [OF W i] fin_le [OF W i] by (rule umbralizarMatriz_desde_cero)
  finally show ?thesis .
qed

lemma leer_rectangular:
  assumes "leerArchivoBMP memoria fs basura nombre = Inr m"
  shows "\<exists>w. \<forall>fila\<in>set m. length fila = w"
proof (cases "fs nombre")
  case None
  with assms show ?thesis by (simp add: leerArchivoBMP_def)
next
  case (Some datos)
  define header where "header = BMPHeader_de_bytes (fst (read sizeof_BMPHeader basura (abrir datos)))"
  define f where "f = (\<lambda>i j. pixel_en datos
      ((if sizeof_BMPHeader \<le> length datos \<and> 0 \<le> sint (dataOffset header)
        then nat (sint (dataOffset header)) else length datos)
       + i * (3 * nat (sint (width header)) + nat (sint (width header)) mod 4) + 3 * j))"
  have "leerArchivoBMP memoria fs basura nombre =
     (if bitsPerPixel header \<noteq> 24 then Inl (Exit 1)
      else if sint (height header) < 0 \<or> sint (width header) < 0
              \<or> memoria < bytes_de_matriz (nat (sint (height header))) (nat (sint (width header)))
           then Inl Abortado
      else Inr (map (\<lambda>i. map (f i) [0..<nat (sint (width header))])
                  [0..<nat (sint (height header))]))"
    unfolding f_def
    by (rule leerArchivoBMP_casos [where fs = fs and nombre = nombre, OF Some header_def])
  with assms have m: "m = map (\<lambda>i. map (f i) [0..<nat (sint (width header))])
                           [0..<nat (sint (height header))]"
    by (simp split: if_splits)
  have "\<forall>fila\<in>set m. length fila = nat (sint (width header))"
    by (auto simp: m)
  then show ?thesis ..
qed

lemma main_hilos_ok:
  assumes l: "leerArchivoBMP memoria fs basura entrada = Inr m" and W: "1 \<le> W"
  shows "main_hilos memoria W crea fs basura entrada salida t
       = guardarMatrizEnBMP crea fs salida (map (map (\<lambda>p. umbralizar p t)) m)"
proof -
  from l obtain w where "\<forall>fila\<in>set m. length fila = w"
    using leer_rectangular by blast
  then have "fold (\<lambda>i m'. umbralizarMatriz m' t (inicio (length m) W i) (fin (length m) W i))
           [0..<W] m = map (map (\<lambda>p. umbralizar p t)) m"
    using W by (rule hilos_todos)
  with l W show ?thesis
    by (simp add: main_hilos_def)
qed

lemma main_openMP_ok:
  assumes l: "leerArchivoBMP memoria fs basura entrada = Inr m"
  shows "main_openMP memoria crea fs basura entrada salida t
       = guardarMatrizEnBMP crea fs salida (map (map (\<lambda>p. umbralizar p t)) m)"
proof -
  from l obtain w where "\<forall>fila\<in>set m. length fila = w"
    using leer_rectangular by blast
  then have "fold (\<lambda>i m'. fold (\<lambda>j m''. umbralizar_en i j t m'') [0..<length (m' ! 0)] m')
           [0..<length m] m = map (map (\<lambda>p. umbralizar p t)) m"
    by (rule openMP_todos)
  with l show ?thesis
    by (simp add: main_openMP_def)
qed

lemma hijo_escribe:
  assumes l: "leerArchivoBMP memoria fs basura entrada = Inr m" and ne: "m \<noteq> []"
    and W: "1 \<le> W" and i: "i < W" and crea: "crea salida"
  shows "\<exists>fs''. guardarMatrizEnBMP crea fs' salida (hijo W i t m) = Inr fs''"
proof -
  from l obtain w where filas: "\<forall>fila\<in>set m. length fila = w"
    using leer_rectangular by blast
  let ?P = "\<lambda>r. inicio (length m) W i \<le> r \<and> r < fin (length m) W i"
  have h: "hijo W i t m = umbralizar_filas t ?P m"
    using filas W i by (rule hijo_eq)
  from l have d: "length m < 2 ^ 31" and d': "\<forall>fila\<in>set m. length fila < 2 ^ 31"
    using leer_dimensiones by blast+
  from ne have "hd m \<in> set m" by simp
  with filas d' have "length (hd m) = w" and "length (hd m) < 2 ^ 31" by blast+
  then have w: "w < 2 ^ 31" by simp
  have "guardarMatrizEnBMP crea fs' salida (umbralizar_filas t ?P m)
      = Inr (fs'(salida \<mapsto> bytes_de_BMPHeader (cabecera_de (length (umbralizar_filas t ?P m)) w)
                               @ concat (map bytes_de_fila (umbralizar_filas t ?P m))))"
  proof (rule guardarMatrizEnBMP_ok)
    show "umbralizar_filas t ?P m \<noteq> []"
      using ne by (simp add: umbralizar_filas_def)
    show "\<forall>fila\<in>set (umbralizar_filas t ?P m). length fila = w"
      using filas by (rule filas_umbralizar_filas)
    show "length (umbralizar_filas t ?P m) < 2 ^ 31"
      using d by simp
    show "w < 2 ^ 31" by (rule w)
    show "crea salida" by (rule crea)
  qed
  then show ?thesis
    unfolding h by blast
qed

lemma umbralizar_10: "umbralizar \<lparr>blue = 10, green = 10, red = 10\<rparr> 128 = \<lparr>blue = 0, green = 0, red = 0\<rparr>"
  using umbralizar_negro [of "\<lparr>blue = 10, green = 10, red = 10\<rparr>" 128] by simp

lemma umbralizar_200:
  "umbralizar \<lparr>blue = 200, green = 200, red = 200\<rparr> 128 = \<lparr>blue = 255, green = 255, red = 255\<rparr>"
  using umbralizar_blanco [of 128 "\<lparr>blue = 200, green = 200, red = 200\<rparr>"] by simp

lemma procesos_paso:
  assumes "m \<noteq> []" and "\<forall>fila\<in>set m. length fila = w"
    and "length m < 2 ^ 31" and "w < 2 ^ 31" and "crea salida"
  shows "(case guardarMatrizEnBMP crea fs salida m of
            Inl e \<Rightarrow> if crea salida then fs(salida \<mapsto> []) else fs
          | Inr fs'' \<Rightarrow> fs'')
       = fs(salida \<mapsto> bytes_de_BMPHeader (cabecera_de (length m) w) @ concat (map bytes_de_fila m))"
  using guardarMatrizEnBMP_ok [where crea = crea and nombre = salida and fs = fs, OF assms]
  by simp

lemma leer_ejemplo: "leerArchivoBMP 1024 archivos_ejemplo [] ''entrada.bmp'' = Inr imagen_ejemplo"
proof (rule leer_de_guardado [where w = 1])
  show "\<forall>fila\<in>set imagen_ejemplo. length fila = 1"
    by (simp add: imagen_ejemplo_def)
  show "length imagen_ejemplo < 2 ^ 31"
    by (simp add: imagen_ejemplo_def)
  show "(1 :: nat) < 2 ^ 31"
    by simp
  show "bytes_de_matriz (length imagen_ejemplo) 1 \<le> 1024"
    by (simp add: imagen_ejemplo_def bytes_de_matriz_def sizeof_Pixel_def sizeof_vector_def)
  have l: "length imagen_ejemplo = 2"
    by (simp add: imagen_ejemplo_def)
  show "archivos_ejemplo ''entrada.bmp''
      = Some (bytes_de_BMPHeader (cabecera_de (length imagen_ejemplo) 1)
              @ concat (map bytes_de_fila imagen_ejemplo))"
    unfolding l
    by (simp add: archivos_ejemplo_def imagen_ejemplo_def bytes_de_fila_def bytes_de_Pixel_def)
qed

lemma umbralizada_ejemplo:
  "map (map (\<lambda>p. umbralizar p 128)) imagen_ejemplo
     = [[\<lparr>blue = 0, green = 0, red = 0\<rparr>], [\<lparr>blue = 255, green = 255, red = 255\<rparr>]]"
  by (simp add: imagen_ejemplo_def umbralizar_10 umbralizar_200)

lemma rangos_ejemplo:
  "inicio 2 2 0 = 0" "fin 2 2 0 = 1" "inicio 2 2 1 = 1" "fin 2 2 1 = 2"
  by (simp_all add: inicio_def fin_def tamanoBloque_def)

lemma hijo_0_ejemplo:
  "hijo 2 0 128 imagen_ejemplo
     = [[\<lparr>blue = 0, green = 0, red = 0\<rparr>], [\<lparr>blue = 200, green = 200, red = 200\<rparr>]]"
proof -
  have l: "length imagen_ejemplo = 2"
    by (simp add: imagen_ejemplo_def)
  have "hijo 2 0 128 imagen_ejemplo
      = umbralizar_filas 128 (\<lambda>r. inicio (length imagen_ejemplo) 2 0 \<le> r
                                  \<and> r < fin (length imagen_ejemplo) 2 0) imagen_ejemplo"
    by (rule hijo_eq [where w = 1]) (simp_all add: imagen_ejemplo_def)
  also have "\<dots> = umbralizar_filas 128 (\<lambda>r. r < 1) imagen_ejemplo"
    unfolding l rangos_ejemplo by simp
  also have "\<dots> = [[\<lparr>blue = 0, green = 0, red = 0\<rparr>], [\<lparr>blue = 200, green = 200, red = 200\<rparr>]]"
    by (simp add: umbralizar_filas_def imagen_ejemplo_def umbralizar_10)
  finally show ?thesis .
qed

lemma hijo_1_ejemplo:
  "hijo 2 1 128 imagen_ejemplo
     = [[\<lparr>blue = 10, green = 10, red = 10\<rparr>], [\<lparr>blue = 255, green = 255, red = 255\<rparr>]]"
proof -
  have l: "length imagen_ejemplo = 2"
    by (simp add: imagen_ejemplo_def)
  have "hijo 2 1 128 imagen_ejemplo
      = umbralizar_filas 128 (\<lambda>r. inicio (length imagen_ejemplo) 2 1 \<le> r
                                  \<and> r < fin (length imagen_ejemplo) 2 1) imagen_ejemplo"
    by (rule hijo_eq [where w = 1]) (simp_all add: imagen_ejemplo_def)
  also have "\<dots> = umbralizar_filas 128 (\<lambda>r. 1 \<le> r \<and> r < 2) imagen_ejemplo"
    unfolding l rangos_ejemplo by simp
  also have "\<dots> = [[\<lparr>blue = 10, green = 10, red = 10\<rparr>], [\<lparr>blue = 255, green = 255, red = 255\<rparr>]]"
    by (simp add: umbralizar_filas_def imagen_ejemplo_def umbralizar_200)
  finally show ?thesis .
qed

lemma releer:
  assumes "m \<noteq> []" and "\<forall>fila\<in>set m. length fila = w"
    and "length m < 2 ^ 31" and "w < 2 ^ 31" and "bytes_de_matriz (length m) w \<le> memoria"
  shows "leerArchivoBMP memoria
           (fs(salida \<mapsto> bytes_de_BMPHeader (cabecera_de (length m) w) @ concat (map bytes_de_fila m)))
           basura salida = Inr m"
  using assms(2-5) by (rule leer_de_guardado) simp

lemma procesos_ejemplo:
  assumes a: "hijo 2 i 128 imagen_ejemplo = [[p], [q]]" and b: "hijo 2 j 128 imagen_ejemplo = [[p'], [q']]"
  shows "\<exists>fs'. main_procesos 1024 2 [i, j] (\<lambda>n. True) archivos_ejemplo [] ''entrada.bmp''
                  ''salida.bmp'' 128 = Inr fs'
              \<and> leerArchivoBMP 1024 fs' [] ''salida.bmp'' = Inr [[p'], [q']]"
proof -
  let ?F = "\<lambda>m. bytes_de_BMPHeader (cabecera_de (length m) 1) @ concat (map bytes_de_fila m)"
  let ?paso = "\<lambda>i fs'. case guardarMatrizEnBMP (\<lambda>n. True) fs' ''salida.bmp''
                                (hijo 2 i 128 imagen_ejemplo) of
                           Inl e \<Rightarrow> if (\<lambda>n. True) ''salida.bmp''
                                    then fs'(''salida.bmp'' \<mapsto> []) else fs'
                         | Inr fs'' \<Rightarrow> fs''"
  have p1: "?paso i fs = fs(''salida.bmp'' \<mapsto> ?F [[p], [q]])" for fs
    unfolding a by (rule procesos_paso) simp_all
  have p2: "?paso j fs = fs(''salida.bmp'' \<mapsto> ?F [[p'], [q']])" for fs
    unfolding b by (rule procesos_paso) simp_all
  have "main_procesos 1024 2 [i, j] (\<lambda>n. True) archivos_ejemplo [] ''entrada.bmp'' ''salida.bmp'' 128
      = Inr (?paso j (?paso i archivos_ejemplo))"
    by (simp add: main_procesos_def leer_ejemplo)
  also have "?paso j (?paso i archivos_ejemplo)
      = (?paso i archivos_ejemplo)(''salida.bmp'' \<mapsto> ?F [[p'], [q']])"
    by (rule p2)
  finally have m: "main_procesos 1024 2 [i, j] (\<lambda>n. True) archivos_ejemplo [] ''entrada.bmp''
        ''salida.bmp'' 128
      = Inr ((?paso i archivos_ejemplo)(''salida.bmp'' \<mapsto> ?F [[p'], [q']]))" .
  have "leerArchivoBMP 1024 ((?paso i archivos_ejemplo)(''salida.bmp'' \<mapsto> ?F [[p'], [q']]))
          [] ''salida.bmp'' = Inr [[p'], [q']]"
    by (rule releer) (simp_all add: bytes_de_matriz_def sizeof_Pixel_def sizeof_vector_def)
  with m show ?thesis
    by blast
qed

text \<open>
  Claim C5 says that the three programs write the same pixels, the kernel applied to
  every pixel of the image. On the two-row image above, with threshold 128, two
  workers and a free store of 1024 bytes, \<^verbatim>\<open>2_hilos\<close> and \<^verbatim>\<open>4_openMP\<close> write black
  above white, as the claim says. In
  \<^verbatim>\<open>3_procesos\<close> each child thresholds its own block in its own copy and writes the
  whole copy: whichever child writes last, one of the two rows of the output file is
  the unthresholded row of the input.
\<close>

theorem variantes_en_ejemplo:
  "(\<exists>fs'. main_hilos 1024 2 (\<lambda>n. True) archivos_ejemplo [] ''entrada.bmp'' ''salida.bmp'' 128 = Inr fs'
         \<and> leerArchivoBMP 1024 fs' [] ''salida.bmp''
           = Inr [[\<lparr>blue = 0, green = 0, red = 0\<rparr>], [\<lparr>blue = 255, green = 255, red = 255\<rparr>]])
   \<and> (\<exists>fs'. main_openMP 1024 (\<lambda>n. True) archivos_ejemplo [] ''entrada.bmp'' ''salida.bmp'' 128 = Inr fs'
         \<and> leerArchivoBMP 1024 fs' [] ''salida.bmp''
           = Inr [[\<lparr>blue = 0, green = 0, red = 0\<rparr>], [\<lparr>blue = 255, green = 255, red = 255\<rparr>]])
   \<and> (\<exists>fs'. main_procesos 1024 2 [0, 1] (\<lambda>n. True) archivos_ejemplo [] ''entrada.bmp'' ''salida.bmp'' 128
           = Inr fs'
         \<and> leerArchivoBMP 1024 fs' [] ''salida.bmp''
           = Inr [[\<lparr>blue = 10, green = 10, red = 10\<rparr>], [\<lparr>blue = 255, green = 255, red = 255\<rparr>]])
   \<and> (\<exists>fs'. main_procesos 1024 2 [1, 0] (\<lambda>n. True) archivos_ejemplo [] ''entrada.bmp'' ''salida.bmp'' 128
           = Inr fs'
         \<and> leerArchivoBMP 1024 fs' [] ''salida.bmp''
           = Inr [[\<lparr>blue = 0, green = 0, red = 0\<rparr>], [\<lparr>blue = 200, green = 200, red = 200\<rparr>]])"
proof (intro conjI)
  let ?E = "[[\<lparr>blue = 0, green = 0, red = 0\<rparr>], [\<lparr>blue = 255, green = 255, red = 255\<rparr>]]"
  have v: "\<exists>fs'. guardarMatrizEnBMP (\<lambda>n. True) archivos_ejemplo ''salida.bmp'' ?E = Inr fs'
               \<and> leerArchivoBMP 1024 fs' [] ''salida.bmp'' = Inr ?E"
    by (rule ida_y_vuelta [where w = 1])
      (simp_all add: bytes_de_matriz_def sizeof_Pixel_def sizeof_vector_def)
  have "main_hilos 1024 2 (\<lambda>n. True) archivos_ejemplo [] ''entrada.bmp'' ''salida.bmp'' 128
      = guardarMatrizEnBMP (\<lambda>n. True) archivos_ejemplo ''salida.bmp'' ?E"
    using main_hilos_ok [OF leer_ejemplo, of 2 "\<lambda>n. True" "''salida.bmp''" 128]
    by (simp add: umbralizada_ejemplo)
  with v show "\<exists>fs'. main_hilos 1024 2 (\<lambda>n. True) archivos_ejemplo [] ''entrada.bmp'' ''salida.bmp'' 128
        = Inr fs' \<and> leerArchivoBMP 1024 fs' [] ''salida.bmp'' = Inr ?E"
    by simp
  have "main_openMP 1024 (\<lambda>n. True) archivos_ejemplo [] ''entrada.bmp'' ''salida.bmp'' 128
      = guardarMatrizEnBMP (\<lambda>n. True) archivos_ejemplo ''salida.bmp'' ?E"
    using main_openMP_ok [OF leer_ejemplo, of "\<lambda>n. True" "''salida.bmp''" 128]
    by (simp add: umbralizada_ejemplo)
  with v show "\<exists>fs'. main_openMP 1024 (\<lambda>n. True) archivos_ejemplo [] ''entrada.bmp'' ''salida.bmp'' 128
        = Inr fs' \<and> leerArchivoBMP 1024 fs' [] ''salida.bmp'' = Inr ?E"
    by simp
  show "\<exists>fs'. main_procesos 1024 2 [0, 1] (\<lambda>n. True) archivos_ejemplo [] ''entrada.bmp'' ''salida.bmp'' 128
           = Inr fs'
         \<and> leerArchivoBMP 1024 fs' [] ''salida.bmp''
           = Inr [[\<lparr>blue = 10, green = 10, red = 10\<rparr>], [\<lparr>blue = 255, green = 255, red = 255\<rparr>]]"
    using hijo_0_ejemplo hijo_1_ejemplo by (rule procesos_ejemplo)
  show "\<exists>fs'. main_procesos 1024 2 [1, 0] (\<lambda>n. True) archivos_ejemplo [] ''entrada.bmp'' ''salida.bmp'' 128
           = Inr fs'
         \<and> leerArchivoBMP 1024 fs' [] ''salida.bmp''
           = Inr [[\<lparr>blue = 0, green = 0, red = 0\<rparr>], [\<lparr>blue = 200, green = 200, red = 200\<rparr>]]"
    using hijo_1_ejemplo hijo_0_ejemplo by (rule procesos_ejemplo)
qed

end
